theory Spec2Isabelle
  imports Complex_Main "HOL-Library.List_Lexorder" "HOL-Library.Char_ord"
begin

section \<open>JavaScript primitives used by server/index.js\<close>

text \<open>
  Numbers. The server computes with JavaScript numbers. The model takes the finite ones as
  rationals with exact arithmetic; a value whose \<^verbatim>\<open>Number(...)\<close> is NaN or infinite is
  \<open>None\<close> where the code tests \<^verbatim>\<open>Number.isFinite\<close>. \<^verbatim>\<open>Math.round\<close> rounds to the nearest
  integer, a tie going up.
\<close>

definition Math_round :: "rat \<Rightarrow> int" where
  "Math_round x = \<lfloor>x + 1 / 2\<rfloor>"

text \<open>
  Strings are ASCII texts. \<^verbatim>\<open>toUpperCase\<close> and \<^verbatim>\<open>toLowerCase\<close> map the 26 letters,
  \<^verbatim>\<open>trim\<close> strips tab, line feed, vertical tab, form feed, carriage return and space from
  both ends.
\<close>

definition lowerLetters :: string where
  "lowerLetters = ''abcdefghijklmnopqrstuvwxyz''"

definition upperLetters :: string where
  "upperLetters = ''ABCDEFGHIJKLMNOPQRSTUVWXYZ''"

definition toUpperChar :: "char \<Rightarrow> char" where
  "toUpperChar c = (case map_of (zip lowerLetters upperLetters) c of Some u \<Rightarrow> u | None \<Rightarrow> c)"

definition toLowerChar :: "char \<Rightarrow> char" where
  "toLowerChar c = (case map_of (zip upperLetters lowerLetters) c of Some l \<Rightarrow> l | None \<Rightarrow> c)"

definition toUpperCase :: "string \<Rightarrow> string" where
  "toUpperCase s = map toUpperChar s"

definition toLowerCase :: "string \<Rightarrow> string" where
  "toLowerCase s = map toLowerChar s"

definition whiteSpace :: "char \<Rightarrow> bool" where
  "whiteSpace c = (c \<in> set [CHR 0x09, CHR 0x0A, CHR 0x0B, CHR 0x0C, CHR 0x0D, CHR 0x20])"

definition trim :: "string \<Rightarrow> string" where
  "trim s = rev (dropWhile whiteSpace (rev (dropWhile whiteSpace s)))"

text \<open>
  \<^verbatim>\<open>a || b\<close> on a text field that is a string or absent (\<open>None\<close> is undefined or null):
  the empty string is falsy too.
\<close>

definition orElse :: "string option \<Rightarrow> string \<Rightarrow> string" where
  "orElse a b = (case a of None \<Rightarrow> b | Some s \<Rightarrow> if s = [] then b else s)"

subsection \<open>Plain objects used as dictionaries\<close>

text \<open>
  The server keeps its lookup tables in plain objects (\<^verbatim>\<open>{}\<close>, an object literal,
  \<^verbatim>\<open>Object.fromEntries\<close>). An object is the list of its own properties in insertion order.
  Reading \<^verbatim>\<open>obj[key]\<close> follows the prototype chain: a key that is no own property but names
  a member of \<^verbatim>\<open>Object.prototype\<close> yields that member, a function or object, which is
  truthy, not nullish and not a number. \<^verbatim>\<open>Object.values\<close> lists the own properties only,
  here in insertion order (JavaScript lists keys that are array indices first; nothing
  below depends on the order of \<open>byCampus\<close> or \<open>byCoupon\<close>).
\<close>

type_synonym 'a js_object = "(string \<times> 'a) list"

datatype 'a lookup = Own 'a | Inherited | Undefined

definition objectPrototypeKeys :: "string list" where
  "objectPrototypeKeys =
     [''constructor'', ''__defineGetter__'', ''__defineSetter__'', ''hasOwnProperty'',
      ''__lookupGetter__'', ''__lookupSetter__'', ''isPrototypeOf'', ''propertyIsEnumerable'',
      ''toString'', ''valueOf'', ''__proto__'', ''toLocaleString'']"

definition getProp :: "'a js_object \<Rightarrow> string \<Rightarrow> 'a lookup" where
  "getProp obj k =
     (case map_of obj k of
        Some v \<Rightarrow> Own v
      | None \<Rightarrow> if k \<in> set objectPrototypeKeys then Inherited else Undefined)"

fun setProp :: "'a js_object \<Rightarrow> string \<Rightarrow> 'a \<Rightarrow> 'a js_object" where
  "setProp [] k v = [(k, v)]"
| "setProp ((k', v') # obj) k v =
     (if k' = k then (k, v) # obj else (k', v') # setProp obj k v)"

definition fromEntries :: "(string \<times> 'a) list \<Rightarrow> 'a js_object" where
  "fromEntries kvs = fold (\<lambda>(k, v) obj. setProp obj k v) kvs []"

definition Object_values :: "'a js_object \<Rightarrow> 'a list" where
  "Object_values obj = map snd obj"

section \<open>Sanitization helper\<close>

text \<open>
  \<^verbatim>\<open>sanitizeString(value, maxLen)\<close>: a falsy value gives the empty string; otherwise the
  text is trimmed first and cut to \<open>maxLen\<close> afterwards.
\<close>

definition sanitizeString :: "string option \<Rightarrow> nat \<Rightarrow> string" where
  "sanitizeString v maxLen =
     (case v of
        None \<Rightarrow> []
      | Some s \<Rightarrow>
          if s = [] then []
          else (let t = trim s in if length t > maxLen then take maxLen t else t))"

section \<open>Coupon engine\<close>

datatype coupon_type = Percent | Flat

record coupon_info =
  ctype :: coupon_type
  cvalue :: rat
  minTotal :: "rat option"

text \<open>The table \<^verbatim>\<open>COUPONS\<close>; the display label of a coupon is never read and left out.\<close>

definition COUPONS :: "coupon_info js_object" where
  "COUPONS =
     [(''UNISTUDENT10'', \<lparr>ctype = Percent, cvalue = 10, minTotal = Some 0\<rparr>),
      (''FREESHIP20'', \<lparr>ctype = Flat, cvalue = 20, minTotal = Some 150\<rparr>)]"

record coupon_result =
  finalTotal :: int
  discount :: int
  code :: "string option"

definition normalizeCode :: "string option \<Rightarrow> string" where
  "normalizeCode rawCode = toUpperCase (trim (orElse rawCode []))"

text \<open>
  \<^verbatim>\<open>applyCoupon(total, rawCode)\<close>. Were \<^verbatim>\<open>COUPONS[code]\<close> an inherited member, \<open>info\<close> would
  be truthy with no \<open>minTotal\<close>, \<open>type\<close> or \<open>value\<close>: the discount stays 0 and the code is
  returned.
\<close>

definition applyCoupon :: "rat \<Rightarrow> string option \<Rightarrow> coupon_result" where
  "applyCoupon tot rawCode =
     (let c = normalizeCode rawCode in
      case getProp COUPONS c of
        Undefined \<Rightarrow> \<lparr>finalTotal = Math_round tot, discount = 0, code = None\<rparr>
      | Inherited \<Rightarrow>
          if tot \<le> 0 then \<lparr>finalTotal = Math_round tot, discount = 0, code = None\<rparr>
          else if tot < 0 then \<lparr>finalTotal = Math_round tot, discount = 0, code = None\<rparr>
          else (let d = max 0 (Math_round 0);
                    final = max 0 (Math_round (tot - of_int d))
                in \<lparr>finalTotal = final, discount = d, code = Some c\<rparr>)
      | Own info \<Rightarrow>
          if tot \<le> 0 then \<lparr>finalTotal = Math_round tot, discount = 0, code = None\<rparr>
          else if tot < (case minTotal info of None \<Rightarrow> 0 | Some m \<Rightarrow> m)
          then \<lparr>finalTotal = Math_round tot, discount = 0, code = None\<rparr>
          else (let d0 =
                      (case ctype info of
                         Percent \<Rightarrow> (tot * cvalue info) / 100
                       | Flat \<Rightarrow> cvalue info);
                    d = max 0 (Math_round d0);
                    final = max 0 (Math_round (tot - of_int d))
                in \<lparr>finalTotal = final, discount = d, code = Some c\<rparr>))"

section \<open>Data model\<close>

text \<open>
  The tables of the relational store, as the handlers read and write them (creation
  timestamps of users and products are never read by the modelled handlers and left out).
  The store is reachable: a handler's reads succeed; whether a write goes through (the
  store enforces its own column types and foreign keys) is an input \<open>accepted\<close> of the
  handler, and a refused write raises into the handler's \<^verbatim>\<open>catch\<close>.
\<close>

record user =
  user_id :: string
  user_email :: string
  user_name :: string
  user_passwordHash :: string

record product =
  prod_id :: string
  prod_name :: string
  prod_price :: int
  prod_campus :: string
  prod_category :: string
  prod_imageUrl :: "string option"
  prod_sellerId :: "string option"

record order_item =
  item_productId :: string
  item_qty :: rat
  item_price :: rat

record order =
  ord_id :: string
  ord_campus :: string
  ord_pickup :: string
  ord_total :: int
  ord_couponCode :: "string option"
  ord_discount :: "int option"
  ord_buyerPhone :: "string option"
  ord_buyerId :: "string option"
  ord_createdAt :: int
  ord_items :: "order_item list"

section \<open>Requests and responses\<close>

record public_user =
  pu_id :: string
  pu_email :: string
  pu_name :: string

record credentials =
  cred_email :: "string option"
  cred_password :: "string option"
  cred_name :: "string option"

text \<open>
  A cart entry as the checkout reads it. \<open>None\<close> among the entries is a falsy entry
  (\<^verbatim>\<open>null\<close>). \<open>ce_qty\<close> and \<open>ce_price\<close> hold \<^verbatim>\<open>Number(i.qty)\<close> and
  \<^verbatim>\<open>Number(i.price)\<close> when finite, \<open>None\<close> otherwise.
\<close>

record cart_entry =
  ce_productId :: "string option"
  ce_id :: "string option"
  ce_name :: "string option"
  ce_qty :: "rat option"
  ce_price :: "rat option"

record checkout_fields =
  cf_campus :: "string option"
  cf_pickup :: "string option"
  cf_couponCode :: "string option"
  cf_phone :: "string option"
  cf_items :: "cart_entry option list option"
  cf_cart :: "cart_entry option list option"

text \<open>
  The three accepted payload shapes: a bare array, or an object whose \<open>items\<close> or \<open>cart\<close>
  is an array (\<open>None\<close>: absent or not an array).
\<close>

datatype checkout_body = ArrayBody "cart_entry option list" | ObjectBody checkout_fields

record campus_row =
  cr_campus :: string
  cr_sales :: int
  cr_orders :: int

record coupon_row =
  cp_code :: string
  cp_uses :: int
  cp_totalDiscount :: int

record daily_row =
  dr_date :: string
  dr_sales :: int
  dr_orders :: int

record summary =
  sm_range :: string
  sm_from :: int
  sm_to :: int
  sm_sales :: int
  sm_orders :: int
  sm_avgOrder :: int
  sm_discount :: int
  sm_byCampus :: "campus_row list"
  sm_byCoupon :: "coupon_row list"
  sm_daily :: "daily_row list"

text \<open>
  A response is a status and a JSON body. \<open>ErrorBody e extra\<close> is \<^verbatim>\<open>{error: e, ...extra}\<close>;
  the \<open>message\<close> field of a 500 body carries the exception's text and is left out.
  \<open>NoItemsReceived b\<close> is the 422 body of the checkout, which echoes the request body
  \<open>b\<close>. \<open>CheckoutOk orderId total discount couponCode etaMins fee\<close> is the checkout's reply.
\<close>

datatype resp_body =
    ErrorBody string "(string \<times> string) list"
  | NoItemsReceived checkout_body
  | AuthBody string public_user
  | OkBody
  | CheckoutOk string int int "string option" nat nat
  | SummaryBody summary

type_synonym response = "nat \<times> resp_body"

section \<open>Rate limiter\<close>

record bucket =
  bkt_count :: int
  bkt_start :: int

record origin =
  req_ip :: "string option"
  xForwardedFor :: "string option"
  remoteAddress :: "string option"

definition clientIp :: "origin \<Rightarrow> string" where
  "clientIp req = orElse (req_ip req) (orElse (xForwardedFor req) (orElse (remoteAddress req) ''anon''))"

text \<open>
  \<^verbatim>\<open>rateLimit(windowMs, maxRequests, label)\<close> applied to the shared \<^verbatim>\<open>rateBuckets\<close>, a
  request and the clock reading \<^verbatim>\<open>Date.now()\<close>: \<open>None\<close> is \<^verbatim>\<open>next()\<close>, \<open>Some r\<close> the
  reply sent instead. On an inherited member as bucket the arithmetic gives NaN, no
  comparison holds and nothing is stored in \<^verbatim>\<open>rateBuckets\<close>.
\<close>

definition rateLimit ::
  "int \<Rightarrow> int \<Rightarrow> string \<Rightarrow> bucket js_object \<Rightarrow> origin \<Rightarrow> int
     \<Rightarrow> response option \<times> bucket js_object" where
  "rateLimit windowMs maxRequests label rateBuckets req now =
     (let ip = clientIp req;
          key = label @ '':'' @ ip
      in case getProp rateBuckets key of
           Undefined \<Rightarrow>
             (None, setProp rateBuckets key \<lparr>bkt_count = 1, bkt_start = now\<rparr>)
         | Own bucket \<Rightarrow>
             (let elapsed = now - bkt_start bucket in
              if elapsed > windowMs
              then (None, setProp rateBuckets key \<lparr>bkt_count = 1, bkt_start = now\<rparr>)
              else (let bucket' = bucket\<lparr>bkt_count := bkt_count bucket + 1\<rparr>;
                        rateBuckets' = setProp rateBuckets key bucket'
                    in if bkt_count bucket' > maxRequests
                       then (Some (429, ErrorBody ''Too many requests''
                                     [(''hint'', ''Slow down on '' @ label @ '' calls'')]),
                             rateBuckets')
                       else (None, rateBuckets')))
         | Inherited \<Rightarrow> (None, rateBuckets))"

definition checkoutLimiter ::
  "bucket js_object \<Rightarrow> origin \<Rightarrow> int \<Rightarrow> response option \<times> bucket js_object" where
  "checkoutLimiter = rateLimit 60000 10 ''checkout''"

text \<open>
  A client's requests through the checkout limiter, one clock reading each: the list of
  decisions (\<open>True\<close>: admitted) and the buckets left behind.
\<close>

fun serveAll :: "bucket js_object \<Rightarrow> origin \<Rightarrow> int list \<Rightarrow> bool list \<times> bucket js_object" where
  "serveAll rateBuckets req [] = ([], rateBuckets)"
| "serveAll rateBuckets req (now # clock) =
     (let (reply, rateBuckets') = checkoutLimiter rateBuckets req now;
          (admitted, rateBuckets'') = serveAll rateBuckets' req clock
      in ((reply = None) # admitted, rateBuckets''))"

section \<open>Authentication\<close>

definition publicUser :: "user \<Rightarrow> public_user" where
  "publicUser u = \<lparr>pu_id = user_id u, pu_email = user_email u, pu_name = user_name u\<rparr>"

definition falsy :: "string option \<Rightarrow> bool" where
  "falsy v = (v = None \<or> v = Some [])"

text \<open>
  \<^verbatim>\<open>POST /api/auth/signup\<close>. \<open>signToken\<close> is the token signer, \<open>hash\<close> the salted password
  hash, \<open>newId\<close> the id the store gives the new row. The password is a string or absent.
\<close>

definition signup ::
  "(public_user \<Rightarrow> string) \<Rightarrow> (string \<Rightarrow> string) \<Rightarrow> string \<Rightarrow> bool \<Rightarrow> user list \<Rightarrow> credentials
     \<Rightarrow> response \<times> user list" where
  "signup signToken hash newId accepted users body =
     (let cleanEmail = toLowerCase (sanitizeString (cred_email body) 120);
          cleanName = sanitizeString (cred_name body) 80
      in if cleanEmail = [] \<or> falsy (cred_password body) \<or> cleanName = []
         then ((400, ErrorBody ''name, email, and password are required'' []), users)
         else (case find (\<lambda>u. user_email u = cleanEmail) users of
                 Some existing \<Rightarrow> ((409, ErrorBody ''Email already registered'' []), users)
               | None \<Rightarrow>
                   if \<not> accepted then ((500, ErrorBody ''Signup failed'' []), users)
                   else (let u = \<lparr>user_id = newId, user_email = cleanEmail,
                                    user_name = cleanName,
                                    user_passwordHash = hash (orElse (cred_password body) [])\<rparr>
                         in ((200, AuthBody (signToken (publicUser u)) (publicUser u)),
                             users @ [u]))))"

text \<open>\<^verbatim>\<open>POST /api/auth/login\<close>; \<open>compare\<close> is the password check against a stored hash.\<close>

definition login ::
  "(public_user \<Rightarrow> string) \<Rightarrow> (string \<Rightarrow> string \<Rightarrow> bool) \<Rightarrow> user list \<Rightarrow> credentials \<Rightarrow> response" where
  "login signToken compare users body =
     (let cleanEmail = toLowerCase (sanitizeString (cred_email body) 120)
      in if cleanEmail = [] \<or> falsy (cred_password body)
         then (400, ErrorBody ''email and password are required'' [])
         else (case find (\<lambda>u. user_email u = cleanEmail) users of
                 None \<Rightarrow> (401, ErrorBody ''Invalid credentials'' [])
               | Some u \<Rightarrow>
                   if \<not> compare (orElse (cred_password body) []) (user_passwordHash u)
                   then (401, ErrorBody ''Invalid credentials'' [])
                   else (200, AuthBody (signToken (publicUser u)) (publicUser u))))"

section \<open>Seller: delete product\<close>

text \<open>
  \<^verbatim>\<open>DELETE /api/my/products/:id\<close> behind \<^verbatim>\<open>requireAuth\<close>: \<open>userId\<close> is \<^verbatim>\<open>req.user.id\<close>,
  \<open>pid\<close> the path parameter.
\<close>

definition deleteProduct ::
  "bool \<Rightarrow> product list \<Rightarrow> string \<Rightarrow> string \<Rightarrow> response \<times> product list" where
  "deleteProduct accepted products userId pid =
     (case find (\<lambda>p. prod_id p = pid) products of
        None \<Rightarrow> ((403, ErrorBody ''Not allowed'' []), products)
      | Some p \<Rightarrow>
          if prod_sellerId p \<noteq> Some userId
          then ((403, ErrorBody ''Not allowed'' []), products)
          else if \<not> accepted then ((500, ErrorBody ''Failed to delete product'' []), products)
          else ((200, OkBody), filter (\<lambda>q. prod_id q \<noteq> pid) products))"

section \<open>Checkout\<close>

record norm_item =
  ni_productId :: string
  ni_name :: string
  ni_qty :: rat
  ni_priceSnap :: rat

definition bodyField :: "(checkout_fields \<Rightarrow> 'a option) \<Rightarrow> checkout_body \<Rightarrow> 'a option" where
  "bodyField f body = (case body of ArrayBody xs \<Rightarrow> None | ObjectBody ob \<Rightarrow> f ob)"

definition cartItems :: "checkout_body \<Rightarrow> cart_entry option list" where
  "cartItems body =
     (case body of
        ArrayBody xs \<Rightarrow> xs
      | ObjectBody ob \<Rightarrow>
          (case cf_items ob of
             Some xs \<Rightarrow> xs
           | None \<Rightarrow> (case cf_cart ob of Some xs \<Rightarrow> xs | None \<Rightarrow> [])))"

definition normalizeEntry :: "cart_entry \<Rightarrow> norm_item" where
  "normalizeEntry i =
     \<lparr>ni_productId = orElse (ce_productId i) (orElse (ce_id i) ''CLIENT-ID''),
      ni_name = orElse (ce_name i) ''Item'',
      ni_qty = (case ce_qty i of Some q \<Rightarrow> q | None \<Rightarrow> 1),
      ni_priceSnap = (case ce_price i of Some p \<Rightarrow> p | None \<Rightarrow> 0)\<rparr>"

definition normalizeItems :: "cart_entry option list \<Rightarrow> norm_item list" where
  "normalizeItems items = map (normalizeEntry \<circ> the) (filter (\<lambda>i. i \<noteq> None) items)"

definition buildPriceMap :: "product list \<Rightarrow> norm_item list \<Rightarrow> int js_object" where
  "buildPriceMap products normItems =
     (let ids = map ni_productId (filter (\<lambda>i. ni_productId i \<noteq> []) normItems);
          found = filter (\<lambda>p. prod_id p \<in> set ids) products
      in fromEntries (map (\<lambda>p. (prod_id p, prod_price p)) found))"

text \<open>
  The \<^verbatim>\<open>reduce\<close> that computes \<open>baseTotal\<close>: an own entry of \<open>priceMap\<close> is a finite
  number, an inherited member is not, so the snapshot is billed; a quantity that is not
  positive is billed as 1.
\<close>

definition baseTotalStep :: "int js_object \<Rightarrow> rat \<Rightarrow> norm_item \<Rightarrow> rat" where
  "baseTotalStep priceMap acc i =
     (let dbPrice = (case getProp priceMap (ni_productId i) of
                       Own p \<Rightarrow> Some (of_int p)
                     | Inherited \<Rightarrow> None
                     | Undefined \<Rightarrow> None);
          unit = (case dbPrice of Some p \<Rightarrow> p | None \<Rightarrow> ni_priceSnap i);
          qty = (if ni_qty i > 0 then ni_qty i else 1)
      in acc + unit * qty)"

definition baseTotal :: "int js_object \<Rightarrow> norm_item list \<Rightarrow> rat" where
  "baseTotal priceMap normItems = foldl (baseTotalStep priceMap) 0 normItems"

text \<open>
  The line items handed to \<^verbatim>\<open>prisma.order.create\<close>:
  \<^verbatim>\<open>price: priceMap[it.productId] ?? it.priceSnap ?? 0\<close>. An inherited member is not
  nullish, so it is passed as the price; it is no number (\<open>None\<close>) and the create raises.
\<close>

definition createPrice :: "int js_object \<Rightarrow> norm_item \<Rightarrow> rat option" where
  "createPrice priceMap it =
     (case getProp priceMap (ni_productId it) of
        Own p \<Rightarrow> Some (of_int p)
      | Inherited \<Rightarrow> None
      | Undefined \<Rightarrow> Some (ni_priceSnap it))"

definition createItem :: "int js_object \<Rightarrow> norm_item \<Rightarrow> order_item option" where
  "createItem priceMap it =
     map_option
       (\<lambda>p. \<lparr>item_productId = ni_productId it, item_qty = ni_qty it, item_price = p\<rparr>)
       (createPrice priceMap it)"

text \<open>
  \<^verbatim>\<open>POST /api/cart/checkout\<close> behind the limiter and \<^verbatim>\<open>requireAuth\<close>: \<open>userId\<close> is
  \<^verbatim>\<open>req.user.id\<close>, \<open>newId\<close> and \<open>now\<close> are the id and creation time the store gives the
  order.
\<close>

definition checkout ::
  "bool \<Rightarrow> string \<Rightarrow> int \<Rightarrow> product list \<Rightarrow> order list \<Rightarrow> string \<Rightarrow> checkout_body
     \<Rightarrow> response \<times> order list" where
  "checkout accepted newId now products orders userId body =
     (let campus = sanitizeString (Some (orElse (bodyField cf_campus body) ''ADMU'')) 40;
          pickup = sanitizeString (Some (orElse (bodyField cf_pickup body) ''Gate 2.5'')) 80;
          couponCodeRaw = sanitizeString (Some (orElse (bodyField cf_couponCode body) [])) 32;
          buyerPhone = sanitizeString (Some (orElse (bodyField cf_phone body) [])) 32
      in if buyerPhone = [] then ((400, ErrorBody ''Phone number is required'' []), orders)
         else (let normItems = normalizeItems (cartItems body) in
               if length normItems = 0 then ((422, NoItemsReceived body), orders)
               else (let priceMap = buildPriceMap products normItems;
                         r = applyCoupon (baseTotal priceMap normItems) (Some couponCodeRaw)
                     in case (if accepted then those (map (createItem priceMap) normItems) else None) of
                          None \<Rightarrow> ((500, ErrorBody ''Checkout failed'' []), orders)
                        | Some items \<Rightarrow>
                            (let created = \<lparr>ord_id = newId, ord_campus = campus, ord_pickup = pickup,
                                        ord_total = finalTotal r, ord_couponCode = code r,
                                        ord_discount = Some (discount r),
                                        ord_buyerPhone = Some buyerPhone,
                                        ord_buyerId = Some userId, ord_createdAt = now,
                                        ord_items = items\<rparr>
                             in ((200, CheckoutOk (ord_id created) (ord_total created)
                                        (case ord_discount created of None \<Rightarrow> 0 | Some d \<Rightarrow> d)
                                        (if falsy (ord_couponCode created) then None
                                         else ord_couponCode created) 15 0),
                                 orders @ [created])))))"

text \<open>
  Reference quantities for the checkout: the stored price of a product id, the unit price
  an item is meant to get (the stored price when the product exists, the client's snapshot
  otherwise), the quantity the subtotal bills, and the sum of price times quantity over
  the line items of an order.
\<close>

definition storedPrice :: "product list \<Rightarrow> string \<Rightarrow> int option" where
  "storedPrice products pid = map_option prod_price (find (\<lambda>p. prod_id p = pid) products)"

definition unitPrice :: "product list \<Rightarrow> norm_item \<Rightarrow> rat" where
  "unitPrice products i =
     (case storedPrice products (ni_productId i) of
        Some p \<Rightarrow> of_int p
      | None \<Rightarrow> ni_priceSnap i)"

definition billedQty :: "norm_item \<Rightarrow> rat" where
  "billedQty i = (if ni_qty i > 0 then ni_qty i else 1)"

definition itemsTotal :: "order_item list \<Rightarrow> rat" where
  "itemsTotal items = sum_list (map (\<lambda>it. item_price it * item_qty it) items)"

section \<open>Admin analytics summary\<close>

text \<open>
  The three \<^verbatim>\<open>forEach\<close> loops. A group is created when \<^verbatim>\<open>map[key]\<close> is falsy and then
  updated through \<^verbatim>\<open>map[key]\<close>; when the key names an inherited member the update lands on
  that member and the map gets no entry.
\<close>

definition orZero :: "int option \<Rightarrow> int" where
  "orZero v = (case v of None \<Rightarrow> 0 | Some n \<Rightarrow> n)"

definition campusStep :: "campus_row js_object \<Rightarrow> order \<Rightarrow> campus_row js_object" where
  "campusStep byCampusMap odr =
     (let campus = orElse (Some (ord_campus odr)) ''Unknown'';
          m = (case getProp byCampusMap campus of
                 Undefined \<Rightarrow>
                   setProp byCampusMap campus \<lparr>cr_campus = campus, cr_sales = 0, cr_orders = 0\<rparr>
               | Own row \<Rightarrow> byCampusMap
               | Inherited \<Rightarrow> byCampusMap)
      in case getProp m campus of
           Own row \<Rightarrow>
             setProp m campus
               (row\<lparr>cr_sales := cr_sales row + ord_total odr, cr_orders := cr_orders row + 1\<rparr>)
         | Inherited \<Rightarrow> m
         | Undefined \<Rightarrow> m)"

definition couponStep :: "coupon_row js_object \<Rightarrow> order \<Rightarrow> coupon_row js_object" where
  "couponStep couponMap odr =
     (if falsy (ord_couponCode odr) then couponMap
      else (let c = orElse (ord_couponCode odr) [];
                m = (case getProp couponMap c of
                       Undefined \<Rightarrow>
                         setProp couponMap c \<lparr>cp_code = c, cp_uses = 0, cp_totalDiscount = 0\<rparr>
                     | Own row \<Rightarrow> couponMap
                     | Inherited \<Rightarrow> couponMap)
            in case getProp m c of
                 Own row \<Rightarrow>
                   setProp m c
                     (row\<lparr>cp_uses := cp_uses row + 1,
                          cp_totalDiscount := cp_totalDiscount row + orZero (ord_discount odr)\<rparr>)
               | Inherited \<Rightarrow> m
               | Undefined \<Rightarrow> m))"

text \<open>\<open>isoDate\<close> is \<^verbatim>\<open>toISOString().slice(0, 10)\<close> of a creation instant: its UTC day.\<close>

definition dailyStep :: "(int \<Rightarrow> string) \<Rightarrow> daily_row js_object \<Rightarrow> order \<Rightarrow> daily_row js_object" where
  "dailyStep isoDate dailyMap odr =
     (let key = isoDate (ord_createdAt odr);
          m = (case getProp dailyMap key of
                 Undefined \<Rightarrow> setProp dailyMap key \<lparr>dr_date = key, dr_sales = 0, dr_orders = 0\<rparr>
               | Own row \<Rightarrow> dailyMap
               | Inherited \<Rightarrow> dailyMap)
      in case getProp m key of
           Own row \<Rightarrow>
             setProp m key
               (row\<lparr>dr_sales := dr_sales row + ord_total odr, dr_orders := dr_orders row + 1\<rparr>)
         | Inherited \<Rightarrow> m
         | Undefined \<Rightarrow> m)"

text \<open>
  The aggregation of \<^verbatim>\<open>GET /api/admin/summary\<close> over the orders the query returned.
  \<^verbatim>\<open>o.total || 0\<close> is \<open>o.total\<close>, a number. The daily rows are sorted by
  \<^verbatim>\<open>localeCompare\<close> on the date keys, the order of strings.
\<close>

definition summarize :: "(int \<Rightarrow> string) \<Rightarrow> string \<Rightarrow> int \<Rightarrow> int \<Rightarrow> order list \<Rightarrow> summary" where
  "summarize isoDate rangeSel since now orders =
     (let totalSales = foldl (\<lambda>acc odr. acc + ord_total odr) 0 orders;
          totalOrders = int (length orders);
          totalDiscount = foldl (\<lambda>acc odr. acc + orZero (ord_discount odr)) 0 orders;
          avgOrder = (if totalOrders > 0
                      then Math_round (of_int totalSales / of_int totalOrders) else 0);
          byCampus = Object_values (foldl campusStep [] orders);
          byCoupon = Object_values (foldl couponStep [] orders);
          daily = sort_key dr_date (Object_values (foldl (dailyStep isoDate) [] orders))
      in \<lparr>sm_range = rangeSel, sm_from = since, sm_to = now,
          sm_sales = totalSales, sm_orders = totalOrders, sm_avgOrder = avgOrder,
          sm_discount = totalDiscount,
          sm_byCampus = byCampus, sm_byCoupon = byCoupon, sm_daily = daily\<rparr>)"

text \<open>
  The handler: the range selector picks the lower bound (in milliseconds since the epoch),
  the query returns the orders created in \<open>[from, now]\<close>, oldest first. The reply
  carries the two bounds as ISO strings; the model keeps the instants.
\<close>

definition adminSummary :: "(int \<Rightarrow> string) \<Rightarrow> int \<Rightarrow> string option \<Rightarrow> order list \<Rightarrow> response" where
  "adminSummary isoDate now rangeParam allOrders =
     (let rangeSel = orElse rangeParam ''7d'';
          since = (if rangeSel = ''7d'' then now - 7 * 24 * 60 * 60 * 1000
                  else if rangeSel = ''30d'' then now - 30 * 24 * 60 * 60 * 1000
                  else 0);
          orders = sort_key ord_createdAt
                     (filter (\<lambda>odr. since \<le> ord_createdAt odr \<and> ord_createdAt odr \<le> now) allOrders)
      in (200, SummaryBody (summarize isoDate rangeSel since now orders)))"

section \<open>Sample collaborators and data\<close>

text \<open>
  Stand-ins for the external collaborators (token signer, password hash and its check, the
  date formatter on the first two days of the epoch) and a few rows, used to run the
  handlers on concrete inputs.
\<close>

definition sampleSign :: "public_user \<Rightarrow> string" where
  "sampleSign u = ''token:'' @ pu_id u"

definition sampleHash :: "string \<Rightarrow> string" where
  "sampleHash pw = ''hash:'' @ pw"

definition sampleCompare :: "string \<Rightarrow> string \<Rightarrow> bool" where
  "sampleCompare pw h = (h = sampleHash pw)"

definition sampleIsoDate :: "int \<Rightarrow> string" where
  "sampleIsoDate ms = (if ms < 86400000 then ''1970-01-01'' else ''1970-01-02'')"

definition ann :: user where
  "ann = \<lparr>user_id = ''u1'', user_email = ''ann@uni.ph'', user_name = ''Ann'',
           user_passwordHash = ''hash:secret''\<rparr>"

definition lamp :: product where
  "lamp = \<lparr>prod_id = ''p1'', prod_name = ''Lamp'', prod_price = 100, prod_campus = ''ADMU'',
            prod_category = ''General'', prod_imageUrl = None, prod_sellerId = Some ''u1''\<rparr>"

definition strayBook :: product where
  "strayBook = \<lparr>prod_id = ''p2'', prod_name = ''Book'', prod_price = 40, prod_campus = ''ADMU'',
                 prod_category = ''General'', prod_imageUrl = None, prod_sellerId = None\<rparr>"

definition lampEntry :: "rat \<Rightarrow> cart_entry" where
  "lampEntry q = \<lparr>ce_productId = Some ''p1'', ce_id = None, ce_name = Some ''Lamp'',
                   ce_qty = Some q, ce_price = Some 5\<rparr>"

definition cartOf :: "string option \<Rightarrow> cart_entry option list \<Rightarrow> checkout_body" where
  "cartOf phone entries =
     ObjectBody \<lparr>cf_campus = None, cf_pickup = None, cf_couponCode = None, cf_phone = phone,
                 cf_items = Some entries, cf_cart = None\<rparr>"

definition strangerEntry :: "string \<Rightarrow> cart_entry" where
  "strangerEntry pid = \<lparr>ce_productId = Some pid, ce_id = None, ce_name = None,
                          ce_qty = None, ce_price = Some 7\<rparr>"

definition campusCart :: "string \<Rightarrow> checkout_body" where
  "campusCart campus =
     ObjectBody \<lparr>cf_campus = Some campus, cf_pickup = None, cf_couponCode = Some ''unistudent10'',
                 cf_phone = Some ''0917'', cf_items = Some [Some (lampEntry 2)], cf_cart = None\<rparr>"

section \<open>Properties of the string primitives\<close>

lemma toUpperChar_not_lower: "toUpperChar c \<notin> set lowerLetters"
  by (simp add: toUpperChar_def lowerLetters_def upperLetters_def)


lemma toLowerChar_idem: "toLowerChar (toLowerChar c) = toLowerChar c"
  by (simp add: toLowerChar_def lowerLetters_def upperLetters_def)



lemma toLowerCase_idem: "toLowerCase (toLowerCase s) = toLowerCase s"
  by (simp add: toLowerCase_def toLowerChar_idem)

lemma toUpperCase_no_lower: "set (toUpperCase s) \<inter> set lowerLetters = {}"
  using toUpperChar_not_lower by (auto simp: toUpperCase_def)

lemma prototype_key_has_lower: "k \<in> set objectPrototypeKeys \<Longrightarrow> set k \<inter> set lowerLetters \<noteq> {}"
  by (auto simp: objectPrototypeKeys_def lowerLetters_def)

lemma toUpperCase_not_prototype_key: "toUpperCase s \<notin> set objectPrototypeKeys"
  using toUpperCase_no_lower prototype_key_has_lower by blast





subsection \<open>Coupon codes\<close>


lemma normalizeCode_not_inherited: "getProp COUPONS (normalizeCode r) \<noteq> Inherited"
  by (simp add: getProp_def normalizeCode_def toUpperCase_not_prototype_key split: option.split)




section \<open>Properties of plain objects\<close>

lemma map_of_setProp: "map_of (setProp obj k v) = (map_of obj)(k \<mapsto> v)"
  by (induction obj k v rule: setProp.induct) auto

lemma getProp_setProp_same: "getProp (setProp obj k v) k = Own v"
  by (simp add: getProp_def map_of_setProp)

lemma getProp_setProp_other: "k' \<noteq> k \<Longrightarrow> getProp (setProp obj k v) k' = getProp obj k'"
  by (simp add: getProp_def map_of_setProp)

section \<open>Properties of the rate limiter\<close>

lemma checkout_key_not_inherited: "''checkout:'' @ ip \<notin> set objectPrototypeKeys"
  by (simp add: objectPrototypeKeys_def)

lemma checkoutLimiter_fresh:
  assumes "map_of rateBuckets (''checkout:'' @ clientIp req) = None"
  shows "checkoutLimiter rateBuckets req now =
           (None, setProp rateBuckets (''checkout:'' @ clientIp req) \<lparr>bkt_count = 1, bkt_start = now\<rparr>)"
  using assms checkout_key_not_inherited [of "clientIp req"]
  by (simp add: checkoutLimiter_def rateLimit_def getProp_def)

lemma checkoutLimiter_reset:
  assumes "map_of rateBuckets (''checkout:'' @ clientIp req) = Some b"
    and "now - bkt_start b > 60000"
  shows "checkoutLimiter rateBuckets req now =
           (None, setProp rateBuckets (''checkout:'' @ clientIp req) \<lparr>bkt_count = 1, bkt_start = now\<rparr>)"
  using assms by (simp add: checkoutLimiter_def rateLimit_def getProp_def)

lemma checkoutLimiter_count:
  assumes "map_of rateBuckets (''checkout:'' @ clientIp req) = Some b"
    and "now - bkt_start b \<le> 60000"
  shows "checkoutLimiter rateBuckets req now =
           (if bkt_count b + 1 > 10
            then Some (429, ErrorBody ''Too many requests'' [(''hint'', ''Slow down on checkout calls'')])
            else None,
            setProp rateBuckets (''checkout:'' @ clientIp req) (b\<lparr>bkt_count := bkt_count b + 1\<rparr>))"
  using assms by (simp add: checkoutLimiter_def rateLimit_def getProp_def Let_def)

lemma checkoutLimiter_reply:
  "fst (checkoutLimiter rateBuckets req now) \<in>
     {None, Some (429, ErrorBody ''Too many requests'' [(''hint'', ''Slow down on checkout calls'')])}"
  by (simp add: checkoutLimiter_def rateLimit_def Let_def split: lookup.split)

lemma serveAll_within_window:
  assumes "map_of rateBuckets (''checkout:'' @ clientIp req) = Some b"
    and "bkt_count b = int c"
    and "\<forall>t \<in> set ts. t - bkt_start b \<le> 60000"
  shows "fst (serveAll rateBuckets req ts) =
           replicate (min (10 - c) (length ts)) True @ replicate (length ts - (10 - c)) False"
  using assms
proof (induction ts arbitrary: rateBuckets b c)
  case Nil
  then show ?case by simp
next
  case (Cons t ts)
  let ?key = "''checkout:'' @ clientIp req"
  let ?b' = "b\<lparr>bkt_count := bkt_count b + 1\<rparr>"
  let ?m' = "setProp rateBuckets ?key ?b'"
  from Cons.prems have step: "checkoutLimiter rateBuckets req t =
      (if bkt_count b + 1 > 10
       then Some (429, ErrorBody ''Too many requests'' [(''hint'', ''Slow down on checkout calls'')])
       else None, ?m')"
    by (intro checkoutLimiter_count) auto
  have "map_of ?m' ?key = Some ?b'" by (simp add: map_of_setProp)
  moreover have "bkt_count ?b' = int (Suc c)" using Cons.prems by simp
  moreover have "\<forall>t \<in> set ts. t - bkt_start ?b' \<le> 60000" using Cons.prems by simp
  ultimately have IH: "fst (serveAll ?m' req ts) =
      replicate (min (10 - Suc c) (length ts)) True @ replicate (length ts - (10 - Suc c)) False"
    by (rule Cons.IH)
  show ?case
  proof (cases "c < 10")
    case True
    then have "min (10 - c) (Suc (length ts)) = Suc (min (10 - Suc c) (length ts))"
      and "Suc (length ts) - (10 - c) = length ts - (10 - Suc c)"
      by auto
    with True IH step Cons.prems show ?thesis
      by (simp add: split_beta)
  next
    case False
    then have "10 - c = 0" "10 - Suc c = 0" by auto
    with False IH step Cons.prems show ?thesis
      by (simp add: split_beta replicate_append_same)
  qed
qed

lemma getProp_Undefined_iff: "getProp obj k = Undefined \<longleftrightarrow> map_of obj k = None \<and> k \<notin> set objectPrototypeKeys"
  by (simp add: getProp_def split: option.split)

lemma getProp_Own_iff: "getProp obj k = Own v \<longleftrightarrow> map_of obj k = Some v"
  by (simp add: getProp_def split: option.split)

text \<open>
  C7. The checkout limiter (window 60000 ms, at most 10 requests). From a state with no
  bucket for the client's key, a run of requests whose clock readings all lie within the
  window of the first one admits exactly the first 10 and rejects every later one; the
  11th is rejected. A request that finds the bucket older than the window resets it to
  count 1, started now, and is admitted. A reply of the limiter is always the 429 body.
\<close>

theorem checkoutLimiter_window:
  "(getProp rateBuckets (''checkout:'' @ clientIp req) = Undefined \<and> (\<forall>t \<in> set ts. t - t0 \<le> 60000) \<longrightarrow>
      fst (serveAll rateBuckets req (t0 # ts)) =
        replicate (min 10 (Suc (length ts))) True @ replicate (Suc (length ts) - 10) False
      \<and> (10 \<le> length ts \<longrightarrow> fst (serveAll rateBuckets req (t0 # ts)) ! 10 = False))
   \<and> (getProp rateBuckets (''checkout:'' @ clientIp req) = Own b \<and> now - bkt_start b > 60000 \<longrightarrow>
        checkoutLimiter rateBuckets req now =
          (None, setProp rateBuckets (''checkout:'' @ clientIp req) \<lparr>bkt_count = 1, bkt_start = now\<rparr>))
   \<and> fst (checkoutLimiter rateBuckets req now) \<in>
        {None, Some (429, ErrorBody ''Too many requests'' [(''hint'', ''Slow down on checkout calls'')])}"
proof (intro conjI impI)
  let ?key = "''checkout:'' @ clientIp req"
  let ?b0 = "\<lparr>bkt_count = 1, bkt_start = t0\<rparr>"
  let ?m0 = "setProp rateBuckets ?key ?b0"
  assume a: "getProp rateBuckets ?key = Undefined \<and> (\<forall>t \<in> set ts. t - t0 \<le> 60000)"
  then have first: "checkoutLimiter rateBuckets req t0 = (None, ?m0)"
    by (simp add: checkoutLimiter_fresh getProp_Undefined_iff)
  have "fst (serveAll ?m0 req ts) =
      replicate (min (10 - 1) (length ts)) True @ replicate (length ts - (10 - 1)) False"
    using a by (intro serveAll_within_window [where b = ?b0]) (simp_all add: map_of_setProp)
  moreover have "min 10 (Suc (length ts)) = Suc (min (10 - 1) (length ts))"
    and "Suc (length ts) - 10 = length ts - (10 - 1)"
    by auto
  ultimately show run: "fst (serveAll rateBuckets req (t0 # ts)) =
        replicate (min 10 (Suc (length ts))) True @ replicate (Suc (length ts) - 10) False"
    using first by (simp add: split_beta)
  assume "10 \<le> length ts"
  then show "fst (serveAll rateBuckets req (t0 # ts)) ! 10 = False"
    unfolding run by (simp add: nth_append min_def)
next
  assume "getProp rateBuckets (''checkout:'' @ clientIp req) = Own b \<and> now - bkt_start b > 60000"
  then show "checkoutLimiter rateBuckets req now =
          (None, setProp rateBuckets (''checkout:'' @ clientIp req) \<lparr>bkt_count = 1, bkt_start = now\<rparr>)"
    by (simp add: checkoutLimiter_reset getProp_Own_iff)
next
  show "fst (checkoutLimiter rateBuckets req now) \<in>
        {None, Some (429, ErrorBody ''Too many requests'' [(''hint'', ''Slow down on checkout calls'')])}"
    by (rule checkoutLimiter_reply)
qed

theorem checkoutLimiter_window_witness:
  "fst (serveAll [] \<lparr>req_ip = Some ''10.0.0.7'', xForwardedFor = None, remoteAddress = None\<rparr>
          (0 # [5000, 10000, 15000, 20000, 25000, 30000, 35000, 40000, 45000, 50000, 60000])) =
     [True, True, True, True, True, True, True, True, True, True, False, False]
   \<and> fst (serveAll [] \<lparr>req_ip = Some ''10.0.0.7'', xForwardedFor = None, remoteAddress = None\<rparr>
          (0 # [5000, 10000, 15000, 20000, 25000, 30000, 35000, 40000, 45000, 50000, 60000])) ! 10 = False
   \<and> checkoutLimiter [(''checkout:10.0.0.7'', \<lparr>bkt_count = 12, bkt_start = 0\<rparr>)]
         \<lparr>req_ip = Some ''10.0.0.7'', xForwardedFor = None, remoteAddress = None\<rparr> 60001 =
       (None, [(''checkout:10.0.0.7'', \<lparr>bkt_count = 1, bkt_start = 60001\<rparr>)])"
proof -
  let ?req = "\<lparr>req_ip = Some ''10.0.0.7'', xForwardedFor = None, remoteAddress = None\<rparr>"
  let ?ts = "[5000, 10000, 15000, 20000, 25000, 30000, 35000, 40000, 45000, 50000, 60000] :: int list"
  let ?b = "\<lparr>bkt_count = 12, bkt_start = 0\<rparr>"
  let ?m = "[(''checkout:10.0.0.7'', ?b)]"
  have ip: "clientIp ?req = ''10.0.0.7''"
    by (simp add: clientIp_def orElse_def)
  have fresh: "getProp ([] :: bucket js_object) (''checkout:'' @ clientIp ?req) = Undefined
      \<and> (\<forall>t \<in> set ?ts. t - 0 \<le> 60000)"
    using checkout_key_not_inherited [of "clientIp ?req"] by (simp add: getProp_Undefined_iff)
  have own: "getProp ?m (''checkout:'' @ clientIp ?req) = Own ?b \<and> 60001 - bkt_start ?b > 60000"
    by (simp add: getProp_Own_iff ip)
  have len: "length ?ts = 11" by simp
  have shape: "replicate (min 10 (Suc (length ?ts))) True @ replicate (Suc (length ?ts) - 10) False =
      [True, True, True, True, True, True, True, True, True, True, False, False]"
    unfolding len by (simp add: numeral_eq_Suc)
  have long: "10 \<le> length ?ts" unfolding len by simp
  note inst1 = checkoutLimiter_window [of "[]" ?req ?ts 0 ?b 60001]
  note inst2 = checkoutLimiter_window [of ?m ?req ?ts 0 ?b 60001]
  from inst1 fresh have run: "fst (serveAll [] ?req (0 # ?ts)) =
        replicate (min 10 (Suc (length ?ts))) True @ replicate (Suc (length ?ts) - 10) False
      \<and> (10 \<le> length ?ts \<longrightarrow> fst (serveAll [] ?req (0 # ?ts)) ! 10 = False)"
    by blast
  from inst2 own have reset: "checkoutLimiter ?m ?req 60001 =
      (None, setProp ?m (''checkout:'' @ clientIp ?req) \<lparr>bkt_count = 1, bkt_start = 60001\<rparr>)"
    by blast
  have upd: "setProp ?m (''checkout:'' @ clientIp ?req) \<lparr>bkt_count = 1, bkt_start = 60001\<rparr> =
      [(''checkout:10.0.0.7'', \<lparr>bkt_count = 1, bkt_start = 60001\<rparr>)]"
    by (simp add: ip)
  from run shape have lst: "fst (serveAll [] ?req (0 # ?ts)) =
      [True, True, True, True, True, True, True, True, True, True, False, False]"
    by (simp only:)
  from run long have nth: "fst (serveAll [] ?req (0 # ?ts)) ! 10 = False"
    by blast
  from reset upd have res: "checkoutLimiter ?m ?req 60001 =
      (None, [(''checkout:10.0.0.7'', \<lparr>bkt_count = 1, bkt_start = 60001\<rparr>)])"
    by (simp only:)
  show ?thesis
    by (intro conjI) (rule lst, rule nth, rule res)
qed

section \<open>Properties of authentication\<close>

text \<open>
  C6. Login does not tell an unknown email from a wrong password: for requests with a
  non-empty sanitized email and a non-empty password, a login whose email matches no user
  and a login whose email matches a user but whose password fails the hash comparison
  both answer 401 with the body \<open>{error: Invalid credentials}\<close>; the two replies are equal.
\<close>

theorem login_no_enumeration:
  assumes "toLowerCase (sanitizeString (cred_email bodyA) 120) \<noteq> []"
    and "\<not> falsy (cred_password bodyA)"
    and "find (\<lambda>u. user_email u = toLowerCase (sanitizeString (cred_email bodyA) 120)) usersA = None"
    and "toLowerCase (sanitizeString (cred_email bodyB) 120) \<noteq> []"
    and "\<not> falsy (cred_password bodyB)"
    and "find (\<lambda>u. user_email u = toLowerCase (sanitizeString (cred_email bodyB) 120)) usersB = Some u"
    and "\<not> compare (orElse (cred_password bodyB) []) (user_passwordHash u)"
  shows "login signToken compare usersA bodyA = (401, ErrorBody ''Invalid credentials'' [])
       \<and> login signToken compare usersB bodyB = (401, ErrorBody ''Invalid credentials'' [])
       \<and> login signToken compare usersA bodyA = login signToken compare usersB bodyB"
  using assms by (simp add: login_def Let_def)

theorem login_no_enumeration_witness:
  "login sampleSign sampleCompare []
     \<lparr>cred_email = Some ''Ann@Uni.ph'', cred_password = Some ''guess'', cred_name = None\<rparr>
     = (401, ErrorBody ''Invalid credentials'' [])
   \<and> login sampleSign sampleCompare [ann]
     \<lparr>cred_email = Some ''Ann@Uni.ph'', cred_password = Some ''guess'', cred_name = None\<rparr>
     = (401, ErrorBody ''Invalid credentials'' [])
   \<and> login sampleSign sampleCompare []
     \<lparr>cred_email = Some ''Ann@Uni.ph'', cred_password = Some ''guess'', cred_name = None\<rparr>
     = login sampleSign sampleCompare [ann]
     \<lparr>cred_email = Some ''Ann@Uni.ph'', cred_password = Some ''guess'', cred_name = None\<rparr>"
proof -
  let ?body = "\<lparr>cred_email = Some ''Ann@Uni.ph'', cred_password = Some ''guess'', cred_name = None\<rparr>"
  have email: "toLowerCase (sanitizeString (cred_email ?body) 120) = ''ann@uni.ph''"
    by code_simp
  have "toLowerCase (sanitizeString (cred_email ?body) 120) \<noteq> []"
    unfolding email by simp
  moreover have "\<not> falsy (cred_password ?body)"
    by (simp add: falsy_def)
  moreover have "find (\<lambda>u. user_email u = toLowerCase (sanitizeString (cred_email ?body) 120)) [] = None"
    by simp
  moreover have "find (\<lambda>u. user_email u = toLowerCase (sanitizeString (cred_email ?body) 120)) [ann] = Some ann"
    unfolding email by (simp add: ann_def)
  moreover have "\<not> sampleCompare (orElse (cred_password ?body) []) (user_passwordHash ann)"
    by (simp add: sampleCompare_def sampleHash_def orElse_def ann_def)
  ultimately show ?thesis
    using login_no_enumeration [of ?body "[]" ?body "[ann]" ann sampleCompare sampleSign]
    by blast
qed

text \<open>Signup keeps the stored emails lower-case and pairwise different.\<close>

lemma signup_keeps_lower_case:
  assumes "\<forall>u \<in> set users. toLowerCase (user_email u) = user_email u"
  shows "\<forall>u \<in> set (snd (signup signToken hash newId accepted users body)).
           toLowerCase (user_email u) = user_email u"
  using assms by (auto simp: signup_def Let_def toLowerCase_idem split: option.split)

lemma find_None_iff_email: "find (\<lambda>u. user_email u = e) users = None \<longleftrightarrow> e \<notin> user_email ` set users"
  by (auto simp: find_None_iff)

lemma signup_keeps_emails_distinct:
  assumes "distinct (map user_email users)"
  shows "distinct (map user_email (snd (signup signToken hash newId accepted users body)))"
  using assms by (auto simp: signup_def Let_def find_None_iff split: option.split)




section \<open>Properties of product deletion\<close>

text \<open>
  C10. \<open>DELETE /api/my/products/:id\<close> for an authenticated caller. Unless the product exists
  and its seller is the caller, the reply is 403 and the products are unchanged: so when
  the id matches no product, when the product has no seller, and when it belongs to another
  user. Hence the products change only when the product exists and belongs to the caller,
  and then, the store accepting, exactly the rows with that id are gone.
\<close>

theorem deleteProduct_owner_only:
  "(\<not> (\<exists>p. find (\<lambda>p. prod_id p = pid) products = Some p \<and> prod_sellerId p = Some userId)
      \<longrightarrow> deleteProduct accepted products userId pid =
            ((403, ErrorBody ''Not allowed'' []), products))
   \<and> (find (\<lambda>p. prod_id p = pid) products = None
      \<longrightarrow> deleteProduct accepted products userId pid =
            ((403, ErrorBody ''Not allowed'' []), products))
   \<and> (find (\<lambda>p. prod_id p = pid) products = Some q \<and> prod_sellerId q = None
      \<longrightarrow> deleteProduct accepted products userId pid =
            ((403, ErrorBody ''Not allowed'' []), products))
   \<and> (find (\<lambda>p. prod_id p = pid) products = Some q \<and> prod_sellerId q = Some other
        \<and> other \<noteq> userId
      \<longrightarrow> deleteProduct accepted products userId pid =
            ((403, ErrorBody ''Not allowed'' []), products))
   \<and> (snd (deleteProduct accepted products userId pid) \<noteq> products
      \<longrightarrow> (\<exists>p. find (\<lambda>p. prod_id p = pid) products = Some p \<and> prod_sellerId p = Some userId))
   \<and> (find (\<lambda>p. prod_id p = pid) products = Some q \<and> prod_sellerId q = Some userId
        \<and> accepted
      \<longrightarrow> deleteProduct accepted products userId pid =
            ((200, OkBody), filter (\<lambda>p. prod_id p \<noteq> pid) products))"
  by (auto simp: deleteProduct_def split: option.split)

theorem deleteProduct_owner_only_witness:
  "deleteProduct True [lamp, strayBook] ''u1'' ''p9'' =
     ((403, ErrorBody ''Not allowed'' []), [lamp, strayBook])
   \<and> deleteProduct True [lamp, strayBook] ''u1'' ''p2'' =
     ((403, ErrorBody ''Not allowed'' []), [lamp, strayBook])
   \<and> deleteProduct True [lamp, strayBook] ''u7'' ''p1'' =
     ((403, ErrorBody ''Not allowed'' []), [lamp, strayBook])
   \<and> deleteProduct True [lamp, strayBook] ''u1'' ''p1'' = ((200, OkBody), [strayBook])"
proof -
  have none: "find (\<lambda>p. prod_id p = ''p9'') [lamp, strayBook] = None"
    by (simp add: lamp_def strayBook_def)
  have stray: "find (\<lambda>p. prod_id p = ''p2'') [lamp, strayBook] = Some strayBook
      \<and> prod_sellerId strayBook = None"
    by (simp add: lamp_def strayBook_def)
  have other: "find (\<lambda>p. prod_id p = ''p1'') [lamp, strayBook] = Some lamp
      \<and> prod_sellerId lamp = Some ''u1'' \<and> ''u1'' \<noteq> ''u7''"
    by (simp add: lamp_def)
  have own: "find (\<lambda>p. prod_id p = ''p1'') [lamp, strayBook] = Some lamp
      \<and> prod_sellerId lamp = Some ''u1'' \<and> True"
    by (simp add: lamp_def)
  have rest: "filter (\<lambda>p. prod_id p \<noteq> ''p1'') [lamp, strayBook] = [strayBook]"
    by (simp add: lamp_def strayBook_def)
  from none deleteProduct_owner_only [of "''p9''" "[lamp, strayBook]" "''u1''" True]
  have a: "deleteProduct True [lamp, strayBook] ''u1'' ''p9'' =
     ((403, ErrorBody ''Not allowed'' []), [lamp, strayBook])"
    by blast
  from stray deleteProduct_owner_only [of "''p2''" "[lamp, strayBook]" "''u1''" True strayBook]
  have b: "deleteProduct True [lamp, strayBook] ''u1'' ''p2'' =
     ((403, ErrorBody ''Not allowed'' []), [lamp, strayBook])"
    by blast
  from other deleteProduct_owner_only [of "''p1''" "[lamp, strayBook]" "''u7''" True lamp "''u1''"]
  have c: "deleteProduct True [lamp, strayBook] ''u7'' ''p1'' =
     ((403, ErrorBody ''Not allowed'' []), [lamp, strayBook])"
    by blast
  from own deleteProduct_owner_only [of "''p1''" "[lamp, strayBook]" "''u1''" True lamp]
  have "deleteProduct True [lamp, strayBook] ''u1'' ''p1'' =
     ((200, OkBody), filter (\<lambda>p. prod_id p \<noteq> ''p1'') [lamp, strayBook])"
    by blast
  then have d: "deleteProduct True [lamp, strayBook] ''u1'' ''p1'' = ((200, OkBody), [strayBook])"
    by (simp only: rest)
  from a b c d show ?thesis by (intro conjI)
qed

section \<open>Properties of the checkout\<close>

lemma map_of_fold_setProp:
  "map_of (fold (\<lambda>(k, v) obj. setProp obj k v) kvs acc) = map_of acc ++ map_of (rev kvs)"
proof (induction kvs arbitrary: acc)
  case Nil
  then show ?case by simp
next
  case (Cons kv kvs)
  obtain k v where kv: "kv = (k, v)" by (cases kv)
  have "map_of (fold (\<lambda>(k, v) obj. setProp obj k v) (kv # kvs) acc) =
      map_of (setProp acc k v) ++ map_of (rev kvs)"
    by (simp add: kv Cons.IH)
  also have "\<dots> = map_of acc ++ map_of (rev (kv # kvs))"
    by (simp add: kv map_of_setProp)
  finally show ?case .
qed

lemma map_of_rev_distinct: "distinct (map fst kvs) \<Longrightarrow> map_of (rev kvs) = map_of kvs"
proof (induction kvs)
  case Nil
  then show ?case by simp
next
  case (Cons kv kvs)
  obtain k v where kv: "kv = (k, v)" by (cases kv)
  from Cons.prems kv have "map_of kvs k = None"
    by (simp add: map_of_eq_None_iff)
  with Cons kv show ?case
    by (auto simp: map_add_def fun_eq_iff split: option.split)
qed

lemma map_of_fromEntries:
  "distinct (map fst kvs) \<Longrightarrow> map_of (fromEntries kvs) = map_of kvs"
  by (simp add: fromEntries_def map_of_fold_setProp map_of_rev_distinct)

lemma map_of_product_prices:
  "map_of (map (\<lambda>p. (prod_id p, prod_price p)) ps) k =
     map_option prod_price (find (\<lambda>p. prod_id p = k) ps)"
  by (induction ps) auto

lemma find_filter_ids:
  "find (\<lambda>p. prod_id p = k) (filter (\<lambda>p. prod_id p \<in> S) ps) =
     (if k \<in> S then find (\<lambda>p. prod_id p = k) ps else None)"
  by (induction ps) auto

lemma distinct_filter_ids:
  "distinct (map prod_id ps) \<Longrightarrow>
   distinct (map fst (map (\<lambda>p. (prod_id p, prod_price p)) (filter P ps)))"
  by (simp add: comp_def distinct_map_filter)

lemma normalizeEntry_productId: "ni_productId (normalizeEntry e) \<noteq> []"
  by (simp add: normalizeEntry_def orElse_def split: option.split)

lemma normalizeItems_productId: "i \<in> set (normalizeItems xs) \<Longrightarrow> ni_productId i \<noteq> []"
  by (auto simp: normalizeItems_def normalizeEntry_productId)

lemma normalizeItems_empty_iff: "normalizeItems xs = [] \<longleftrightarrow> (\<forall>x \<in> set xs. x = None)"
  by (auto simp: normalizeItems_def filter_empty_conv)

text \<open>The price map holds exactly the stored prices of the products the cart names.\<close>

lemma map_of_buildPriceMap:
  assumes "distinct (map prod_id products)"
    and "i \<in> set normItems" and "ni_productId i \<noteq> []"
  shows "map_of (buildPriceMap products normItems) (ni_productId i) =
           map_option prod_price (find (\<lambda>p. prod_id p = ni_productId i) products)"
proof -
  let ?ids = "map ni_productId (filter (\<lambda>i. ni_productId i \<noteq> []) normItems)"
  let ?found = "filter (\<lambda>p. prod_id p \<in> set ?ids) products"
  let ?kvs = "map (\<lambda>p. (prod_id p, prod_price p)) ?found"
  from assms have mem: "ni_productId i \<in> set ?ids" by auto
  have "buildPriceMap products normItems = fromEntries ?kvs"
    by (simp only: buildPriceMap_def Let_def)
  moreover have "map_of (fromEntries ?kvs) = map_of ?kvs"
    using assms(1) by (intro map_of_fromEntries distinct_filter_ids)
  moreover have "map_of ?kvs (ni_productId i) =
      map_option prod_price (find (\<lambda>p. prod_id p = ni_productId i) ?found)"
    by (rule map_of_product_prices)
  moreover have "find (\<lambda>p. prod_id p = ni_productId i) ?found =
      find (\<lambda>p. prod_id p = ni_productId i) products"
    using mem by (simp only: find_filter_ids if_True)
  ultimately show ?thesis by simp
qed

lemma foldl_add_sum:
  fixes f :: "'a \<Rightarrow> rat"
  assumes "\<forall>i \<in> set xs. \<forall>acc. g acc i = acc + f i"
  shows "foldl g a xs = a + sum_list (map f xs)"
  using assms by (induction xs arbitrary: a) (simp_all add: add.assoc)

lemma baseTotalStep_unitPrice:
  assumes "distinct (map prod_id products)"
    and "i \<in> set normItems" and "ni_productId i \<noteq> []"
  shows "baseTotalStep (buildPriceMap products normItems) acc i =
           acc + unitPrice products i * billedQty i"
  using map_of_buildPriceMap [OF assms]
  by (simp add: baseTotalStep_def getProp_def unitPrice_def storedPrice_def billedQty_def
      Let_def split: option.split)

lemma baseTotal_unitPrice:
  assumes "distinct (map prod_id products)"
  shows "baseTotal (buildPriceMap products (normalizeItems xs)) (normalizeItems xs) =
           sum_list (map (\<lambda>i. unitPrice products i * billedQty i) (normalizeItems xs))"
proof -
  have "foldl (baseTotalStep (buildPriceMap products (normalizeItems xs))) 0 (normalizeItems xs) =
      0 + sum_list (map (\<lambda>i. unitPrice products i * billedQty i) (normalizeItems xs))"
    by (rule foldl_add_sum)
      (simp add: baseTotalStep_unitPrice [OF assms] normalizeItems_productId)
  then show ?thesis by (simp add: baseTotal_def)
qed

lemma createPrice_unitPrice:
  assumes "distinct (map prod_id products)"
    and "i \<in> set normItems" and "ni_productId i \<noteq> []"
    and "createPrice (buildPriceMap products normItems) i = Some p"
  shows "p = unitPrice products i"
  using map_of_buildPriceMap [OF assms(1-3)] assms(4)
  by (auto simp: createPrice_def getProp_def unitPrice_def storedPrice_def
      split: option.splits if_splits)

lemma those_createItem:
  assumes "those (map (createItem priceMap) xs) = Some items"
    and "\<forall>i \<in> set xs. \<forall>p. createPrice priceMap i = Some p \<longrightarrow> p = price i"
  shows "map item_price items = map price xs
       \<and> map item_productId items = map ni_productId xs
       \<and> map item_qty items = map ni_qty xs"
  using assms
proof (induction xs arbitrary: items)
  case Nil
  then show ?case by simp
next
  case (Cons x xs)
  from Cons.prems(1) obtain it rest where it: "createItem priceMap x = Some it"
    and rest: "those (map (createItem priceMap) xs) = Some rest" and items: "items = it # rest"
    by (auto split: option.splits)
  from it obtain p where p: "createPrice priceMap x = Some p"
    and fields: "it = \<lparr>item_productId = ni_productId x, item_qty = ni_qty x, item_price = p\<rparr>"
    by (auto simp: createItem_def)
  from p Cons.prems(2) have "p = price x" by simp
  moreover from rest Cons.prems(2) have "map item_price rest = map price xs
       \<and> map item_productId rest = map ni_productId xs
       \<and> map item_qty rest = map ni_qty xs"
    by (intro Cons.IH) simp_all
  ultimately show ?case by (simp add: items fields)
qed

text \<open>A checkout that answers 200 has stored exactly one new order, built as follows.\<close>

lemma checkout_success:
  assumes "fst (fst (checkout accepted newId now products orders userId body)) = 200"
  shows "\<exists>items.
      those (map (createItem (buildPriceMap products (normalizeItems (cartItems body))))
               (normalizeItems (cartItems body))) = Some items
      \<and> snd (checkout accepted newId now products orders userId body) =
          orders @
          [\<lparr>ord_id = newId,
            ord_campus = sanitizeString (Some (orElse (bodyField cf_campus body) ''ADMU'')) 40,
            ord_pickup = sanitizeString (Some (orElse (bodyField cf_pickup body) ''Gate 2.5'')) 80,
            ord_total = finalTotal (applyCoupon
              (baseTotal (buildPriceMap products (normalizeItems (cartItems body)))
                 (normalizeItems (cartItems body)))
              (Some (sanitizeString (Some (orElse (bodyField cf_couponCode body) [])) 32))),
            ord_couponCode = code (applyCoupon
              (baseTotal (buildPriceMap products (normalizeItems (cartItems body)))
                 (normalizeItems (cartItems body)))
              (Some (sanitizeString (Some (orElse (bodyField cf_couponCode body) [])) 32))),
            ord_discount = Some (discount (applyCoupon
              (baseTotal (buildPriceMap products (normalizeItems (cartItems body)))
                 (normalizeItems (cartItems body)))
              (Some (sanitizeString (Some (orElse (bodyField cf_couponCode body) [])) 32)))),
            ord_buyerPhone = Some (sanitizeString (Some (orElse (bodyField cf_phone body) [])) 32),
            ord_buyerId = Some userId, ord_createdAt = now, ord_items = items\<rparr>]"
  using assms
  by (auto simp: checkout_def Let_def split: if_splits option.splits)

lemma sum_list_products:
  fixes f g :: "'a \<Rightarrow> rat" and f' g' :: "'b \<Rightarrow> rat"
  assumes "map f xs = map f' ys" and "map g xs = map g' ys"
  shows "sum_list (map (\<lambda>x. f x * g x) xs) = sum_list (map (\<lambda>y. f' y * g' y) ys)"
  using assms
proof (induction xs arbitrary: ys)
  case Nil
  then show ?case by simp
next
  case (Cons x xs)
  then obtain y ys' where "ys = y # ys'" by (cases ys) auto
  with Cons show ?case by auto
qed



text \<open>
  C5. A checkout whose sanitized phone number is not empty and whose normalized item list
  is empty (no entries, or only null entries) answers 422, echoing the body, and stores no
  order, whatever campus, pickup and coupon code it carries. The phone number is checked
  first: when it is empty after sanitization the answer is 400, and no order is stored
  either.
\<close>

theorem checkout_no_items:
  "(sanitizeString (Some (orElse (bodyField cf_phone body) [])) 32 \<noteq> []
      \<and> normalizeItems (cartItems body) = []
     \<longrightarrow> checkout accepted newId now products orders userId body =
           ((422, NoItemsReceived body), orders))
   \<and> (sanitizeString (Some (orElse (bodyField cf_phone body) [])) 32 = []
     \<longrightarrow> checkout accepted newId now products orders userId body =
           ((400, ErrorBody ''Phone number is required'' []), orders))
   \<and> (normalizeItems entries = [] \<longleftrightarrow> (\<forall>x \<in> set entries. x = None))"
  by (simp add: checkout_def Let_def normalizeItems_empty_iff)

theorem checkout_no_items_witness:
  "checkout True ''o1'' 1000 [lamp, strayBook] [] ''u1'' (cartOf (Some ''0917'') [None, None]) =
     ((422, NoItemsReceived (cartOf (Some ''0917'') [None, None])), [])
   \<and> checkout True ''o1'' 1000 [lamp, strayBook] [] ''u1'' (cartOf (Some ''  '') [Some (lampEntry 1)]) =
     ((400, ErrorBody ''Phone number is required'' []), [])
   \<and> normalizeItems [None, None] = []"
proof -
  have phone: "sanitizeString (Some (orElse (bodyField cf_phone (cartOf (Some ''0917'') [None, None])) [])) 32 \<noteq> []"
    by code_simp
  have empty: "normalizeItems (cartItems (cartOf (Some ''0917'') [None, None])) = []"
    by code_simp
  have blank: "sanitizeString (Some (orElse (bodyField cf_phone (cartOf (Some ''  '') [Some (lampEntry 1)])) [])) 32 = []"
    by code_simp
  have nulls: "\<forall>x \<in> set [None, None :: cart_entry option]. x = None"
    by simp
  from checkout_no_items [of "cartOf (Some ''0917'') [None, None]" True "''o1''" 1000
      "[lamp, strayBook]" "[]" "''u1''" "[None, None]"] phone empty nulls
  have a: "checkout True ''o1'' 1000 [lamp, strayBook] [] ''u1'' (cartOf (Some ''0917'') [None, None]) =
     ((422, NoItemsReceived (cartOf (Some ''0917'') [None, None])), [])"
    and c: "normalizeItems [None, None] = []"
    by blast+
  from checkout_no_items [of "cartOf (Some ''  '') [Some (lampEntry 1)]" True "''o1''" 1000
      "[lamp, strayBook]" "[]" "''u1''" "[]"] blank
  have b: "checkout True ''o1'' 1000 [lamp, strayBook] [] ''u1'' (cartOf (Some ''  '') [Some (lampEntry 1)]) =
     ((400, ErrorBody ''Phone number is required'' []), [])"
    by blast
  from a b c show ?thesis by (intro conjI)
qed

theorem checkout_no_items_counterexample:
  "normalizeItems (cartItems (cartOf None [])) = []
   \<and> checkout True ''o1'' 1000 [lamp, strayBook] [] ''u1'' (cartOf None []) =
       ((400, ErrorBody ''Phone number is required'' []), [])
   \<and> normalizeItems (cartItems (ArrayBody [])) = []
   \<and> checkout True ''o1'' 1000 [lamp, strayBook] [] ''u1'' (ArrayBody []) =
       ((400, ErrorBody ''Phone number is required'' []), [])"
  by code_simp

text \<open>
  When every normalized quantity is positive, the total of a stored order is the
  coupon-adjusted sum of price times quantity over its own line items.
\<close>

lemma checkout_total_positive_quantities:
  assumes "distinct (map prod_id products)"
    and "fst (fst (checkout accepted newId now products orders userId body)) = 200"
    and "\<forall>i \<in> set (normalizeItems (cartItems body)). ni_qty i > 0"
  shows "\<exists>created.
      snd (checkout accepted newId now products orders userId body) = orders @ [created]
      \<and> ord_total created =
          finalTotal (applyCoupon (itemsTotal (ord_items created))
            (Some (sanitizeString (Some (orElse (bodyField cf_couponCode body) [])) 32)))"
proof -
  let ?N = "normalizeItems (cartItems body)"
  let ?pm = "buildPriceMap products ?N"
  from checkout_success [OF assms(2)] obtain items created
    where items: "those (map (createItem ?pm) ?N) = Some items"
      and stored: "snd (checkout accepted newId now products orders userId body) = orders @ [created]"
      and its: "ord_items created = items"
      and tot: "ord_total created = finalTotal (applyCoupon (baseTotal ?pm ?N)
            (Some (sanitizeString (Some (orElse (bodyField cf_couponCode body) [])) 32)))"
    by auto
  have "\<forall>i \<in> set ?N. \<forall>p. createPrice ?pm i = Some p \<longrightarrow> p = unitPrice products i"
    using assms(1) by (auto intro: createPrice_unitPrice simp: normalizeItems_productId)
  with items have maps: "map item_price items = map (unitPrice products) ?N"
    "map item_qty items = map ni_qty ?N"
    using those_createItem [of ?pm ?N items "unitPrice products"] by auto
  have "map ni_qty ?N = map billedQty ?N"
    using assms(3) by (simp add: billedQty_def)
  with maps have "itemsTotal items =
      sum_list (map (\<lambda>i. unitPrice products i * billedQty i) ?N)"
    unfolding itemsTotal_def by (intro sum_list_products) simp_all
  also have "\<dots> = baseTotal ?pm ?N"
    using assms(1) by (rule baseTotal_unitPrice [symmetric])
  finally show ?thesis
    using stored its tot by auto
qed

text \<open>
  C1. The invariant that a stored order's total is the coupon-adjusted sum of price times
  quantity over its own line items fails on a cart item of quantity 0: the subtotal bills
  a quantity that is not positive as 1, the line item is stored with the quantity as sent.
  The lamp (stored price 100) ordered with quantity 0 gives an order of total 100 whose
  line items sum to 0.
\<close>

theorem checkout_total_zero_quantity:
  "checkout True ''o1'' 1000 [lamp, strayBook] [] ''u1''
     (cartOf (Some ''0917 555 0101'') [Some (lampEntry 0)]) =
     ((200, CheckoutOk ''o1'' 100 0 None 15 0),
      [\<lparr>ord_id = ''o1'', ord_campus = ''ADMU'', ord_pickup = ''Gate 2.5'', ord_total = 100,
        ord_couponCode = None, ord_discount = Some 0,
        ord_buyerPhone = Some ''0917 555 0101'', ord_buyerId = Some ''u1'',
        ord_createdAt = 1000,
        ord_items = [\<lparr>item_productId = ''p1'', item_qty = 0, item_price = 100\<rparr>]\<rparr>])
   \<and> finalTotal (applyCoupon
         (itemsTotal [\<lparr>item_productId = ''p1'', item_qty = 0, item_price = 100\<rparr>]) (Some [])) = 0"
  by code_simp

text \<open>
  A product id that names a member of \<open>Object.prototype\<close> and matches no product: the
  subtotal bills the client's snapshot, the line item's price is the inherited member, the
  create raises and the checkout answers 500 without storing an order.
\<close>

lemma checkout_inherited_product_id:
  "baseTotal (buildPriceMap [lamp, strayBook]
       (normalizeItems (cartItems (cartOf (Some ''0917'') [Some (strangerEntry ''constructor'')]))))
     (normalizeItems (cartItems (cartOf (Some ''0917'') [Some (strangerEntry ''constructor'')]))) = 7
   \<and> checkout True ''o1'' 1000 [lamp, strayBook] [] ''u1''
         (cartOf (Some ''0917'') [Some (strangerEntry ''constructor'')]) =
       ((500, ErrorBody ''Checkout failed'' []), [])"
  by code_simp

section \<open>Properties of the analytics summary\<close>

lemma setProp_twice: "setProp (setProp obj k v) k v' = setProp obj k v'"
  by (induction obj k v rule: setProp.induct) auto

lemma keys_setProp: "set (map fst (setProp obj k v)) = insert k (set (map fst obj))"
  by (induction obj k v rule: setProp.induct) auto

lemma distinct_setProp: "distinct (map fst obj) \<Longrightarrow> distinct (map fst (setProp obj k v))"
proof (induction obj k v rule: setProp.induct)
  case (1 k v)
  then show ?case by simp
next
  case (2 k' v' obj k v)
  then show ?case
    using keys_setProp [of obj k v] by auto
qed

lemma sum_setProp:
  fixes f :: "'a \<Rightarrow> int"
  shows "sum_list (map (\<lambda>kv. f (snd kv)) (setProp obj k v)) =
           sum_list (map (\<lambda>kv. f (snd kv)) obj) + f v
             - (case map_of obj k of Some old \<Rightarrow> f old | None \<Rightarrow> 0)"
  by (induction obj k v rule: setProp.induct) auto

text \<open>
  A grouping loop whose step stores, under the key of the element, a row computed from
  the row found there.
\<close>

lemma foldl_group_sum:
  fixes f :: "'r \<Rightarrow> int"
  assumes "\<forall>m. \<forall>x \<in> set xs. step m x = setProp m (key x) (upd (map_of m (key x)) x)"
    and "\<forall>old. \<forall>x \<in> set xs. f (upd old x) = (case old of Some r \<Rightarrow> f r | None \<Rightarrow> 0) + w x"
  shows "sum_list (map (\<lambda>kv. f (snd kv)) (foldl step m xs)) =
           sum_list (map (\<lambda>kv. f (snd kv)) m) + sum_list (map w xs)"
  using assms
proof (induction xs arbitrary: m)
  case Nil
  then show ?case by simp
next
  case (Cons x xs)
  have "sum_list (map (\<lambda>kv. f (snd kv)) (foldl step (step m x) xs)) =
      sum_list (map (\<lambda>kv. f (snd kv)) (step m x)) + sum_list (map w xs)"
    using Cons.prems by (intro Cons.IH) simp_all
  moreover have "sum_list (map (\<lambda>kv. f (snd kv)) (step m x)) =
      sum_list (map (\<lambda>kv. f (snd kv)) m) + w x"
    using Cons.prems by (simp add: sum_setProp split: option.split)
  ultimately show ?case by simp
qed

lemma foldl_group_lookup:
  assumes "\<forall>m. \<forall>x \<in> set xs. step m x = setProp m (key x) (upd (map_of m (key x)) x)"
  shows "map_of (foldl step m xs) k =
           foldl (\<lambda>old x. if key x = k then Some (upd old x) else old) (map_of m k) xs"
  using assms
proof (induction xs arbitrary: m)
  case Nil
  then show ?case by simp
next
  case (Cons x xs)
  have "map_of (foldl step (step m x) xs) k =
      foldl (\<lambda>old x. if key x = k then Some (upd old x) else old) (map_of (step m x) k) xs"
    using Cons.prems by (intro Cons.IH) simp_all
  moreover have "map_of (step m x) k = (if key x = k then Some (upd (map_of m k) x) else map_of m k)"
    using Cons.prems by (simp add: map_of_setProp)
  ultimately show ?case by simp
qed

lemma foldl_group_distinct:
  assumes "\<forall>m. \<forall>x \<in> set xs. step m x = setProp m (key x) (upd (map_of m (key x)) x)"
    and "distinct (map fst m)"
  shows "distinct (map fst (foldl step m xs))"
  using assms
proof (induction xs arbitrary: m)
  case Nil
  then show ?case by simp
next
  case (Cons x xs)
  then show ?case by (simp add: distinct_setProp)
qed

lemma foldl_skip:
  assumes "\<forall>m. \<forall>x \<in> set xs. \<not> P x \<longrightarrow> step m x = m"
  shows "foldl step m xs = foldl step m (filter P xs)"
  using assms by (induction xs arbitrary: m) simp_all

lemma sum_list_insort_key:
  fixes g :: "'a \<Rightarrow> int"
  shows "sum_list (map g (insort_key f x xs)) = g x + sum_list (map g xs)"
  by (induction xs) simp_all

lemma sum_list_sort_key:
  fixes g :: "'a \<Rightarrow> int"
  shows "sum_list (map g (sort_key f xs)) = sum_list (map g xs)"
  by (induction xs) (simp_all add: sum_list_insort_key)

lemma foldl_add_total:
  fixes f :: "'a \<Rightarrow> int"
  shows "foldl (\<lambda>acc x. acc + f x) a xs = a + sum_list (map f xs)"
  by (induction xs arbitrary: a) simp_all

text \<open>The three steps in the form of a grouping loop, for keys that are not inherited.\<close>

lemma campusStep_group:
  assumes "orElse (Some (ord_campus odr)) ''Unknown'' \<notin> set objectPrototypeKeys"
  shows "campusStep m odr =
           setProp m (orElse (Some (ord_campus odr)) ''Unknown'')
             (case map_of m (orElse (Some (ord_campus odr)) ''Unknown'') of
                None \<Rightarrow> \<lparr>cr_campus = orElse (Some (ord_campus odr)) ''Unknown'',
                          cr_sales = ord_total odr, cr_orders = 1\<rparr>
              | Some row \<Rightarrow> row\<lparr>cr_sales := cr_sales row + ord_total odr,
                                cr_orders := cr_orders row + 1\<rparr>)"
  using assms
  by (simp add: campusStep_def Let_def getProp_def map_of_setProp setProp_twice split: option.split)

lemma dailyStep_group:
  assumes "isoDate (ord_createdAt odr) \<notin> set objectPrototypeKeys"
  shows "dailyStep isoDate m odr =
           setProp m (isoDate (ord_createdAt odr))
             (case map_of m (isoDate (ord_createdAt odr)) of
                None \<Rightarrow> \<lparr>dr_date = isoDate (ord_createdAt odr),
                          dr_sales = ord_total odr, dr_orders = 1\<rparr>
              | Some row \<Rightarrow> row\<lparr>dr_sales := dr_sales row + ord_total odr,
                                dr_orders := dr_orders row + 1\<rparr>)"
  using assms
  by (simp add: dailyStep_def Let_def getProp_def map_of_setProp setProp_twice split: option.split)

lemma couponStep_group:
  assumes "\<not> falsy (ord_couponCode odr)"
    and "orElse (ord_couponCode odr) [] \<notin> set objectPrototypeKeys"
  shows "couponStep m odr =
           setProp m (orElse (ord_couponCode odr) [])
             (case map_of m (orElse (ord_couponCode odr) []) of
                None \<Rightarrow> \<lparr>cp_code = orElse (ord_couponCode odr) [],
                          cp_uses = 1, cp_totalDiscount = orZero (ord_discount odr)\<rparr>
              | Some row \<Rightarrow> row\<lparr>cp_uses := cp_uses row + 1,
                                cp_totalDiscount := cp_totalDiscount row + orZero (ord_discount odr)\<rparr>)"
  using assms
  by (simp add: couponStep_def Let_def getProp_def map_of_setProp setProp_twice split: option.split)

text \<open>The totals need no assumption.\<close>

lemma summary_totals:
  "sm_sales (summarize isoDate rangeSel since now orders) = sum_list (map ord_total orders)
   \<and> sm_orders (summarize isoDate rangeSel since now orders) = int (length orders)
   \<and> sm_discount (summarize isoDate rangeSel since now orders) =
       sum_list (map (\<lambda>odr. orZero (ord_discount odr)) orders)
   \<and> sm_avgOrder (summarize isoDate rangeSel since now orders) =
       (if orders = [] then 0
        else Math_round (of_int (sum_list (map ord_total orders)) / of_int (int (length orders))))"
  by (simp add: summarize_def Let_def foldl_add_total)

text \<open>
  Per campus: when no campus label names an inherited member, the rows' sales and order
  counts sum to the totals, and the row of a label holds the sales and the number of the
  orders with that label.
\<close>

lemma summary_byCampus_sums:
  assumes "\<forall>odr \<in> set orders. orElse (Some (ord_campus odr)) ''Unknown'' \<notin> set objectPrototypeKeys"
  shows "sum_list (map cr_sales (sm_byCampus (summarize isoDate rangeSel since now orders))) =
           sm_sales (summarize isoDate rangeSel since now orders)
       \<and> sum_list (map cr_orders (sm_byCampus (summarize isoDate rangeSel since now orders))) =
           sm_orders (summarize isoDate rangeSel since now orders)"
proof -
  let ?key = "\<lambda>odr. orElse (Some (ord_campus odr)) ''Unknown''"
  let ?upd = "\<lambda>old odr. case old of
      None \<Rightarrow> \<lparr>cr_campus = ?key odr, cr_sales = ord_total odr, cr_orders = 1\<rparr>
    | Some row \<Rightarrow> row\<lparr>cr_sales := cr_sales row + ord_total odr, cr_orders := cr_orders row + 1\<rparr>"
  have step: "\<forall>m. \<forall>x \<in> set orders. campusStep m x = setProp m (?key x) (?upd (map_of m (?key x)) x)"
    using assms by (simp add: campusStep_group)
  have "sum_list (map (\<lambda>kv. cr_sales (snd kv)) (foldl campusStep [] orders)) =
      sum_list (map ord_total orders)"
    using foldl_group_sum [where key = ?key and upd = ?upd and f = cr_sales and w = ord_total
        and m = "[]", OF step]
    by (simp split: option.split)
  moreover have "sum_list (map (\<lambda>kv. cr_orders (snd kv)) (foldl campusStep [] orders)) =
      sum_list (map (\<lambda>odr. 1) orders)"
    using foldl_group_sum [where key = ?key and upd = ?upd and f = cr_orders and w = "\<lambda>odr. 1"
        and m = "[]", OF step]
    by (simp split: option.split)
  moreover have "sum_list (map (\<lambda>odr. 1 :: int) orders) = int (length orders)"
    by (induction orders) simp_all
  ultimately show ?thesis
    by (simp add: summarize_def Let_def foldl_add_total Object_values_def comp_def)
qed

lemma campus_row_running:
  fixes key :: "order \<Rightarrow> string"
  shows "foldl (\<lambda>old odr. if key odr = c
            then Some (case old of
                   None \<Rightarrow> \<lparr>cr_campus = key odr, cr_sales = ord_total odr, cr_orders = 1\<rparr>
                 | Some row \<Rightarrow> row\<lparr>cr_sales := cr_sales row + ord_total odr,
                                   cr_orders := cr_orders row + 1\<rparr>)
            else old) (Some \<lparr>cr_campus = c, cr_sales = s, cr_orders = n\<rparr>) xs =
         Some \<lparr>cr_campus = c,
               cr_sales = s + sum_list (map ord_total (filter (\<lambda>odr. key odr = c) xs)),
               cr_orders = n + int (length (filter (\<lambda>odr. key odr = c) xs))\<rparr>"
  by (induction xs arbitrary: s n) simp_all

lemma campus_row_fresh:
  fixes key :: "order \<Rightarrow> string"
  shows "foldl (\<lambda>old odr. if key odr = c
            then Some (case old of
                   None \<Rightarrow> \<lparr>cr_campus = key odr, cr_sales = ord_total odr, cr_orders = 1\<rparr>
                 | Some row \<Rightarrow> row\<lparr>cr_sales := cr_sales row + ord_total odr,
                                   cr_orders := cr_orders row + 1\<rparr>)
            else old) None xs =
         (if filter (\<lambda>odr. key odr = c) xs = [] then None
          else Some \<lparr>cr_campus = c,
                 cr_sales = sum_list (map ord_total (filter (\<lambda>odr. key odr = c) xs)),
                 cr_orders = int (length (filter (\<lambda>odr. key odr = c) xs))\<rparr>)"
  by (induction xs) (simp_all add: campus_row_running)

lemma summary_byCampus_rows:
  assumes "\<forall>odr \<in> set orders. orElse (Some (ord_campus odr)) ''Unknown'' \<notin> set objectPrototypeKeys"
  shows "map_of (foldl campusStep [] orders) c =
           (if filter (\<lambda>odr. orElse (Some (ord_campus odr)) ''Unknown'' = c) orders = [] then None
            else Some \<lparr>cr_campus = c,
                   cr_sales = sum_list (map ord_total
                     (filter (\<lambda>odr. orElse (Some (ord_campus odr)) ''Unknown'' = c) orders)),
                   cr_orders = int (length
                     (filter (\<lambda>odr. orElse (Some (ord_campus odr)) ''Unknown'' = c) orders))\<rparr>)"
proof -
  let ?key = "\<lambda>odr. orElse (Some (ord_campus odr)) ''Unknown''"
  let ?upd = "\<lambda>old odr. case old of
      None \<Rightarrow> \<lparr>cr_campus = ?key odr, cr_sales = ord_total odr, cr_orders = 1\<rparr>
    | Some row \<Rightarrow> row\<lparr>cr_sales := cr_sales row + ord_total odr, cr_orders := cr_orders row + 1\<rparr>"
  have step: "\<forall>m. \<forall>x \<in> set orders. campusStep m x = setProp m (?key x) (?upd (map_of m (?key x)) x)"
    using assms by (simp add: campusStep_group)
  have "map_of (foldl campusStep [] orders) c =
      foldl (\<lambda>old x. if ?key x = c then Some (?upd old x) else old) (map_of [] c) orders"
    by (rule foldl_group_lookup [where key = ?key and upd = ?upd, OF step])
  then show ?thesis
    by (simp add: campus_row_fresh [where key = ?key])
qed

text \<open>
  Per day: a date key never names an inherited member when the formatter gives dates. Then
  the daily rows are in ascending order of their pairwise different dates, their sales and
  counts sum to the totals, and the row of a date holds the sales and the number of the
  orders created on it.
\<close>

lemma daily_row_running:
  fixes key :: "order \<Rightarrow> string"
  shows "foldl (\<lambda>old odr. if key odr = d
            then Some (case old of
                   None \<Rightarrow> \<lparr>dr_date = key odr, dr_sales = ord_total odr, dr_orders = 1\<rparr>
                 | Some row \<Rightarrow> row\<lparr>dr_sales := dr_sales row + ord_total odr,
                                   dr_orders := dr_orders row + 1\<rparr>)
            else old) (Some \<lparr>dr_date = d, dr_sales = s, dr_orders = n\<rparr>) xs =
         Some \<lparr>dr_date = d,
               dr_sales = s + sum_list (map ord_total (filter (\<lambda>odr. key odr = d) xs)),
               dr_orders = n + int (length (filter (\<lambda>odr. key odr = d) xs))\<rparr>"
  by (induction xs arbitrary: s n) simp_all

lemma daily_row_fresh:
  fixes key :: "order \<Rightarrow> string"
  shows "foldl (\<lambda>old odr. if key odr = d
            then Some (case old of
                   None \<Rightarrow> \<lparr>dr_date = key odr, dr_sales = ord_total odr, dr_orders = 1\<rparr>
                 | Some row \<Rightarrow> row\<lparr>dr_sales := dr_sales row + ord_total odr,
                                   dr_orders := dr_orders row + 1\<rparr>)
            else old) None xs =
         (if filter (\<lambda>odr. key odr = d) xs = [] then None
          else Some \<lparr>dr_date = d,
                 dr_sales = sum_list (map ord_total (filter (\<lambda>odr. key odr = d) xs)),
                 dr_orders = int (length (filter (\<lambda>odr. key odr = d) xs))\<rparr>)"
  by (induction xs) (simp_all add: daily_row_running)

lemma dailyMap_rows:
  assumes "\<forall>odr \<in> set orders. isoDate (ord_createdAt odr) \<notin> set objectPrototypeKeys"
  shows "map_of (foldl (dailyStep isoDate) [] orders) d =
           (if filter (\<lambda>odr. isoDate (ord_createdAt odr) = d) orders = [] then None
            else Some \<lparr>dr_date = d,
                   dr_sales = sum_list (map ord_total
                     (filter (\<lambda>odr. isoDate (ord_createdAt odr) = d) orders)),
                   dr_orders = int (length
                     (filter (\<lambda>odr. isoDate (ord_createdAt odr) = d) orders))\<rparr>)"
proof -
  let ?key = "\<lambda>odr. isoDate (ord_createdAt odr)"
  let ?upd = "\<lambda>old odr. case old of
      None \<Rightarrow> \<lparr>dr_date = ?key odr, dr_sales = ord_total odr, dr_orders = 1\<rparr>
    | Some row \<Rightarrow> row\<lparr>dr_sales := dr_sales row + ord_total odr, dr_orders := dr_orders row + 1\<rparr>"
  have step: "\<forall>m. \<forall>x \<in> set orders.
      dailyStep isoDate m x = setProp m (?key x) (?upd (map_of m (?key x)) x)"
    using assms by (simp add: dailyStep_group)
  have "map_of (foldl (dailyStep isoDate) [] orders) d =
      foldl (\<lambda>old x. if ?key x = d then Some (?upd old x) else old) (map_of [] d) orders"
    by (rule foldl_group_lookup [where key = ?key and upd = ?upd, OF step])
  then show ?thesis
    by (simp add: daily_row_fresh [where key = ?key])
qed

lemma summary_daily:
  assumes "\<forall>odr \<in> set orders. isoDate (ord_createdAt odr) \<notin> set objectPrototypeKeys"
  shows "sorted (map dr_date (sm_daily (summarize isoDate rangeSel since now orders)))
       \<and> distinct (map dr_date (sm_daily (summarize isoDate rangeSel since now orders)))
       \<and> sum_list (map dr_sales (sm_daily (summarize isoDate rangeSel since now orders))) =
           sm_sales (summarize isoDate rangeSel since now orders)
       \<and> sum_list (map dr_orders (sm_daily (summarize isoDate rangeSel since now orders))) =
           sm_orders (summarize isoDate rangeSel since now orders)
       \<and> (\<forall>row \<in> set (sm_daily (summarize isoDate rangeSel since now orders)).
             dr_sales row = sum_list (map ord_total
               (filter (\<lambda>odr. isoDate (ord_createdAt odr) = dr_date row) orders))
             \<and> dr_orders row = int (length
               (filter (\<lambda>odr. isoDate (ord_createdAt odr) = dr_date row) orders))
             \<and> dr_orders row > 0)"
proof -
  let ?key = "\<lambda>odr. isoDate (ord_createdAt odr)"
  let ?upd = "\<lambda>old odr. case old of
      None \<Rightarrow> \<lparr>dr_date = ?key odr, dr_sales = ord_total odr, dr_orders = 1\<rparr>
    | Some row \<Rightarrow> row\<lparr>dr_sales := dr_sales row + ord_total odr, dr_orders := dr_orders row + 1\<rparr>"
  let ?m = "foldl (dailyStep isoDate) [] orders"
  have step: "\<forall>m. \<forall>x \<in> set orders.
      dailyStep isoDate m x = setProp m (?key x) (?upd (map_of m (?key x)) x)"
    using assms by (simp add: dailyStep_group)
  have daily: "sm_daily (summarize isoDate rangeSel since now orders) = sort_key dr_date (map snd ?m)"
    by (simp add: summarize_def Let_def Object_values_def)
  have keys: "distinct (map fst ?m)"
    by (rule foldl_group_distinct [where key = ?key and upd = ?upd, OF step]) simp
  have row: "dr_date r = k
      \<and> dr_sales r = sum_list (map ord_total (filter (\<lambda>odr. ?key odr = k) orders))
      \<and> dr_orders r = int (length (filter (\<lambda>odr. ?key odr = k) orders))
      \<and> dr_orders r > 0" if "(k, r) \<in> set ?m" for k r
  proof -
    from that keys have "map_of ?m k = Some r" by simp
    then show ?thesis
      by (auto simp: dailyMap_rows [OF assms] split: if_splits)
  qed
  then have dates: "map dr_date (map snd ?m) = map fst ?m"
    by auto
  have "sum_list (map (\<lambda>kv. dr_sales (snd kv)) ?m) = sum_list (map ord_total orders)"
    using foldl_group_sum [where key = ?key and upd = ?upd and f = dr_sales and w = ord_total
        and m = "[]", OF step]
    by (simp split: option.split)
  moreover have "sum_list (map (\<lambda>kv. dr_orders (snd kv)) ?m) = sum_list (map (\<lambda>odr. 1) orders)"
    using foldl_group_sum [where key = ?key and upd = ?upd and f = dr_orders and w = "\<lambda>odr. 1"
        and m = "[]", OF step]
    by (simp split: option.split)
  moreover have "sum_list (map (\<lambda>odr. 1 :: int) orders) = int (length orders)"
    by (induction orders) simp_all
  ultimately have sums: "sum_list (map dr_sales (map snd ?m)) = sum_list (map ord_total orders)"
    "sum_list (map dr_orders (map snd ?m)) = int (length orders)"
    by (simp_all add: comp_def)
  have "distinct (map dr_date (map snd ?m))"
    unfolding dates by (rule keys)
  then have "distinct (map snd ?m) \<and> inj_on dr_date (set (map snd ?m))"
    by (simp only: distinct_map)
  then have dst: "distinct (map dr_date (sort_key dr_date (map snd ?m)))"
    by (simp only: distinct_map distinct_sort set_sort)
  have rows: "\<forall>r \<in> set (sort_key dr_date (map snd ?m)).
      dr_sales r = sum_list (map ord_total (filter (\<lambda>odr. ?key odr = dr_date r) orders))
      \<and> dr_orders r = int (length (filter (\<lambda>odr. ?key odr = dr_date r) orders))
      \<and> dr_orders r > 0"
  proof
    fix r
    assume "r \<in> set (sort_key dr_date (map snd ?m))"
    then obtain k where "(k, r) \<in> set ?m" by auto
    from row [OF this]
    show "dr_sales r = sum_list (map ord_total (filter (\<lambda>odr. ?key odr = dr_date r) orders))
      \<and> dr_orders r = int (length (filter (\<lambda>odr. ?key odr = dr_date r) orders))
      \<and> dr_orders r > 0"
      by blast
  qed
  have srt: "sorted (map dr_date (sort_key dr_date (map snd ?m)))"
    by (rule sorted_sort_key)
  have tot: "sm_sales (summarize isoDate rangeSel since now orders) = sum_list (map ord_total orders)"
    "sm_orders (summarize isoDate rangeSel since now orders) = int (length orders)"
    using summary_totals [of isoDate rangeSel since now orders] by simp_all
  have s1: "sum_list (map dr_sales (sort_key dr_date (map snd ?m))) =
      sm_sales (summarize isoDate rangeSel since now orders)"
    by (simp only: sum_list_sort_key sums tot)
  have s2: "sum_list (map dr_orders (sort_key dr_date (map snd ?m))) =
      sm_orders (summarize isoDate rangeSel since now orders)"
    by (simp only: sum_list_sort_key sums tot)
  show ?thesis
    unfolding daily
    apply (intro conjI)
        apply (rule srt)
       apply (rule dst)
      apply (rule s1)
     apply (rule s2)
    apply (rule rows)
    done
qed

text \<open>
  Per coupon: orders whose coupon code is null or empty are skipped; when no code names an
  inherited member, the uses sum to the number of the other orders and the discounts to
  their discounts.
\<close>

lemma summary_byCoupon_sums:
  assumes "\<forall>odr \<in> set orders. orElse (ord_couponCode odr) [] \<notin> set objectPrototypeKeys"
  shows "sum_list (map cp_uses (sm_byCoupon (summarize isoDate rangeSel since now orders))) =
           int (length (filter (\<lambda>odr. \<not> falsy (ord_couponCode odr)) orders))
       \<and> sum_list (map cp_totalDiscount (sm_byCoupon (summarize isoDate rangeSel since now orders))) =
           sum_list (map (\<lambda>odr. orZero (ord_discount odr))
             (filter (\<lambda>odr. \<not> falsy (ord_couponCode odr)) orders))"
proof -
  let ?used = "filter (\<lambda>odr. \<not> falsy (ord_couponCode odr)) orders"
  let ?key = "\<lambda>odr. orElse (ord_couponCode odr) []"
  let ?upd = "\<lambda>old odr. case old of
      None \<Rightarrow> \<lparr>cp_code = ?key odr, cp_uses = 1, cp_totalDiscount = orZero (ord_discount odr)\<rparr>
    | Some row \<Rightarrow> row\<lparr>cp_uses := cp_uses row + 1,
                        cp_totalDiscount := cp_totalDiscount row + orZero (ord_discount odr)\<rparr>"
  have skip: "foldl couponStep [] orders = foldl couponStep [] ?used"
    by (rule foldl_skip) (simp add: couponStep_def)
  have step: "\<forall>m. \<forall>x \<in> set ?used. couponStep m x = setProp m (?key x) (?upd (map_of m (?key x)) x)"
    using assms by (simp add: couponStep_group)
  have "sum_list (map (\<lambda>kv. cp_uses (snd kv)) (foldl couponStep [] ?used)) =
      sum_list (map (\<lambda>odr. 1) ?used)"
    using foldl_group_sum [where key = ?key and upd = ?upd and f = cp_uses and w = "\<lambda>odr. 1"
        and m = "[]", OF step]
    by (simp split: option.split)
  moreover have "sum_list (map (\<lambda>kv. cp_totalDiscount (snd kv)) (foldl couponStep [] ?used)) =
      sum_list (map (\<lambda>odr. orZero (ord_discount odr)) ?used)"
    using foldl_group_sum [where key = ?key and upd = ?upd and f = cp_totalDiscount
        and w = "\<lambda>odr. orZero (ord_discount odr)" and m = "[]", OF step]
    by (simp split: option.split)
  moreover have "sum_list (map (\<lambda>odr. 1 :: int) xs) = int (length xs)" for xs :: "order list"
    by (induction xs) simp_all
  ultimately show ?thesis
    by (simp add: summarize_def Let_def Object_values_def comp_def skip)
qed

text \<open>
  C9. The summary does not reconcile for every set of orders: a campus label that names a
  member of \<open>Object.prototype\<close> gets no row. A checkout sent with campus
  \<open>constructor\<close> stores an order with that campus; the summary over that order reports
  sales 180 in 1 order and an empty per-campus breakdown.
\<close>

theorem summary_inherited_campus:
  "checkout True ''o1'' 1000 [lamp, strayBook] [] ''u1'' (campusCart ''constructor'') =
     ((200, CheckoutOk ''o1'' 180 20 (Some ''UNISTUDENT10'') 15 0),
      [\<lparr>ord_id = ''o1'', ord_campus = ''constructor'', ord_pickup = ''Gate 2.5'',
        ord_total = 180, ord_couponCode = Some ''UNISTUDENT10'', ord_discount = Some 20,
        ord_buyerPhone = Some ''0917'', ord_buyerId = Some ''u1'', ord_createdAt = 1000,
        ord_items = [\<lparr>item_productId = ''p1'', item_qty = 2, item_price = 100\<rparr>]\<rparr>])
   \<and> adminSummary sampleIsoDate 2000 (Some ''all'')
       [\<lparr>ord_id = ''o1'', ord_campus = ''constructor'', ord_pickup = ''Gate 2.5'',
         ord_total = 180, ord_couponCode = Some ''UNISTUDENT10'', ord_discount = Some 20,
         ord_buyerPhone = Some ''0917'', ord_buyerId = Some ''u1'', ord_createdAt = 1000,
         ord_items = [\<lparr>item_productId = ''p1'', item_qty = 2, item_price = 100\<rparr>]\<rparr>] =
     (200, SummaryBody
        \<lparr>sm_range = ''all'', sm_from = 0, sm_to = 2000, sm_sales = 180, sm_orders = 1,
          sm_avgOrder = 180, sm_discount = 20, sm_byCampus = [],
          sm_byCoupon = [\<lparr>cp_code = ''UNISTUDENT10'', cp_uses = 1, cp_totalDiscount = 20\<rparr>],
          sm_daily = [\<lparr>dr_date = ''1970-01-01'', dr_sales = 180, dr_orders = 1\<rparr>]\<rparr>)"
  by code_simp

end
